theory Spec2Isabelle
  imports Main "HOL-Library.Char_ord" "HOL-Library.List_Lexorder" "HOL-Library.Product_Lexorder"
begin

chapter \<open>gs2xls: a GeoServer catalog rendered as a cross-referenced workbook\<close>

text \<open>
  A shallow embedding of \<^verbatim>\<open>src/gs2xls.py\<close>. The catalog (gsconfig) and the HTTP client
  (requests) are inputs of the model: the lists the catalog returns are arguments, and the
  network is a function that gives the outcome of each request. The workbook (openpyxl) is
  modelled as data: a sheet is the list of its rows, a row the list of its cells, and a cell
  carries a value and two annotations (hyperlink and named style).

  Python strings are \<^typ>\<open>string\<close>; their order is the lexicographic order on characters
  (\<^verbatim>\<open>Char_ord\<close>, \<^verbatim>\<open>List_Lexorder\<close>), and a tuple of sort keys is ordered
  lexicographically (\<^verbatim>\<open>Product_Lexorder\<close>), as Python orders tuples.
\<close>

section \<open>Values, errors and strings\<close>

text \<open>
  \<^item> \<open>pyval\<close>: the scalar values an attribute or a cell holds: \<^verbatim>\<open>None\<close>, a string or an
    integer (a bool counts as the integer it equals). A bounding box object is represented
    by the text \<^verbatim>\<open>str()\<close> gives for it, the only way the program reads it.
  \<^item> \<open>json\<close>: a parsed response body; a dict is the list of its items.
  \<^item> \<open>error\<close>: the exceptions the modelled code can raise; none is caught anywhere in the
    program, so each one ends the run.
\<close>

datatype pyval = PNone | PStr string | PNum int

datatype json = JVal pyval | JList "json list" | JDict "(string \<times> json) list"

datatype error =
  ConnectionError | JSONDecodeError | AttributeError | TypeError | KeyError | IndexError
  | ValueError

abbreviation NA :: string where
  "NA \<equiv> ''N/A''"

definition geoserver_url :: string where
  "geoserver_url = ''https://your-geoserver-url/geoserver/rest''"

definition digit_char :: "nat \<Rightarrow> char" where
  "digit_char n = ''0123456789'' ! (n mod 10)"

function str_of_nat :: "nat \<Rightarrow> string" where
  "str_of_nat n =
     (if n < 10 then [digit_char n] else str_of_nat (n div 10) @ [digit_char (n mod 10)])"
  by pat_completeness auto
termination
  by (relation "measure id") auto

declare str_of_nat.simps [simp del]

text \<open>\<^verbatim>\<open>str(x)\<close> on a scalar.\<close>

fun py_str :: "pyval \<Rightarrow> string" where
  "py_str PNone = ''None''"
| "py_str (PStr s) = s"
| "py_str (PNum i) = (if i < 0 then CHR ''-'' # str_of_nat (nat (- i)) else str_of_nat (nat i))"

text \<open>\<^verbatim>\<open>getattr(obj, name, default)\<close>: the attribute is \<open>Some v\<close> when the object has it
  (\<open>Some PNone\<close> when it is there and null) and \<open>None\<close> when the object lacks it.\<close>

definition getattr :: "'a option \<Rightarrow> 'a \<Rightarrow> 'a" where
  "getattr a d = (case a of Some v \<Rightarrow> v | None \<Rightarrow> d)"

definition is_digit :: "char \<Rightarrow> bool" where
  "is_digit c = (c \<in> set ''0123456789'')"

definition startswith :: "string \<Rightarrow> string \<Rightarrow> bool" where
  "startswith s p = (take (length p) s = p)"

text \<open>\<^verbatim>\<open>sep.join(xs)\<close>.\<close>

fun join :: "string \<Rightarrow> string list \<Rightarrow> string" where
  "join sep [] = []"
| "join sep [x] = x"
| "join sep (x # y # ys) = x @ sep @ join sep (y # ys)"

text \<open>\<^verbatim>\<open>s.split(', ')\<close>: the pieces between the occurrences of the separator, found left to
  right; \<open>cur\<close> is the piece being read. The empty string gives one empty piece.\<close>

fun split_from :: "string \<Rightarrow> string \<Rightarrow> string list" where
  "split_from cur [] = [cur]"
| "split_from cur [c] = [cur @ [c]]"
| "split_from cur (c # d # s) =
     (if c = CHR '','' \<and> d = CHR '' '' then cur # split_from [] s
      else split_from (cur @ [c]) (d # s))"

definition split_comma :: "string \<Rightarrow> string list" where
  "split_comma s = split_from [] s"

text \<open>\<^verbatim>\<open>s.replace('cgs:', '')\<close>: every occurrence, left to right, is removed and what
  remains is not read again.\<close>

fun replace_cgs :: "string \<Rightarrow> string" where
  "replace_cgs (a # b # c # d # s) =
     (if [a, b, c, d] = ''cgs:'' then replace_cgs s else a # replace_cgs (b # c # d # s))"
| "replace_cgs s = s"

text \<open>Running a list of steps in order: the first exception ends the loop.\<close>

fun collect :: "(error + 'a) list \<Rightarrow> error + 'a list" where
  "collect [] = Inr []"
| "collect (x # xs) =
     (case x of
        Inl e \<Rightarrow> Inl e
      | Inr v \<Rightarrow> (case collect xs of Inl e \<Rightarrow> Inl e | Inr vs \<Rightarrow> Inr (v # vs)))"

text \<open>A dict comprehension \<^verbatim>\<open>{k: v for ...}\<close>: a later item replaces an earlier one
  with the same key.\<close>

definition py_dict :: "('k \<times> 'v) list \<Rightarrow> ('k \<rightharpoonup> 'v)" where
  "py_dict kvs = foldl (\<lambda>m (k, v). m(k \<mapsto> v)) Map.empty kvs"

section \<open>CRS extraction\<close>

text \<open>
  \<^verbatim>\<open>re.search(r'EPSG:\d+', str(bbox))\<close>: the leftmost position where the pattern matches,
  with the longest run of digits there. \<open>re_match_epsg\<close> is the match at the head of a
  string. Digits are the ASCII digits.
\<close>

definition re_match_epsg :: "string \<Rightarrow> string option" where
  "re_match_epsg s =
     (let ds = takeWhile is_digit (drop 5 s)
      in if startswith s ''EPSG:'' \<and> ds \<noteq> [] then Some (''EPSG:'' @ ds) else None)"

fun re_search_epsg :: "string \<Rightarrow> string option" where
  "re_search_epsg [] = None"
| "re_search_epsg (c # cs) =
     (case re_match_epsg (c # cs) of Some m \<Rightarrow> Some m | None \<Rightarrow> re_search_epsg cs)"

definition extract_epsg_code :: "pyval \<Rightarrow> string" where
  "extract_epsg_code bbox =
     (case re_search_epsg (py_str bbox) of Some m \<Rightarrow> m | None \<Rightarrow> NA)"

text \<open>The claim's words: a token \<^verbatim>\<open>EPSG:\<close> followed by at least one digit starts at the
  head of \<open>t\<close>.\<close>

definition epsg_token_at :: "string \<Rightarrow> bool" where
  "epsg_token_at t = (startswith t ''EPSG:'' \<and> 5 < length t \<and> is_digit (t ! 5))"

section \<open>Catalog records and their normal form\<close>

text \<open>
  The objects the catalog returns, with the attributes the program reads. An attribute read
  directly (\<^verbatim>\<open>ws.name\<close>, \<^verbatim>\<open>store.name\<close>, \<^verbatim>\<open>layer.name\<close>) is a field; an attribute read through
  \<^verbatim>\<open>getattr\<close> with a default is an option. Names are strings: the program slices, splits
  and sorts them.
\<close>

record raw_workspace =
  ws_name :: string
  ws_href :: "pyval option"

record workspace =
  w_name :: string
  w_href :: pyval

definition workspace_entry :: "raw_workspace \<Rightarrow> workspace" where
  "workspace_entry ws = \<lparr>w_name = ws_name ws, w_href = getattr (ws_href ws) (PStr NA)\<rparr>"

definition fetch_workspace_details :: "raw_workspace list \<Rightarrow> workspace list" where
  "fetch_workspace_details cat_workspaces = map workspace_entry cat_workspaces"

record raw_store =
  rs_workspace_name :: string
  rs_name :: string

record store =
  s_workspace_name :: string
  s_store_name :: string
  s_store_url :: string

definition store_entry :: "raw_store \<Rightarrow> store" where
  "store_entry st =
     \<lparr>s_workspace_name = rs_workspace_name st,
      s_store_name = rs_name st,
      s_store_url = geoserver_url @ ''/workspaces/'' @ rs_workspace_name st @ ''/datastores/''
                      @ rs_name st @ ''.html''\<rparr>"

text \<open>\<^verbatim>\<open>sorted(xs, key=f)\<close> is a stable sort, as \<^const>\<open>sort_key\<close> is.\<close>

definition fetch_store_details :: "raw_store list \<Rightarrow> store list" where
  "fetch_store_details cat_stores =
     sort_key (\<lambda>x. (s_workspace_name x, s_store_name x)) (map store_entry cat_stores)"

text \<open>An item of \<^verbatim>\<open>group.layers\<close>: a name, or an object that has a name.\<close>

datatype member = Name string | LayerObj string

fun member_name :: "member \<Rightarrow> string" where
  "member_name (Name s) = s"
| "member_name (LayerObj n) = n"

text \<open>\<open>rg_workspace\<close>: \<open>None\<close> when the group has no workspace, \<open>Some a\<close> when it has
  one, \<open>a\<close> being the name attribute of that workspace.\<close>

record raw_group =
  rg_workspace :: "string option option"
  rg_name :: "string option"
  rg_bounds :: "pyval option"
  rg_title :: "pyval option"
  rg_mode :: "pyval option"
  rg_layers :: "member list"

record group =
  g_workspace_name :: string
  g_group_name :: string
  g_title :: pyval
  g_crs :: string
  g_bounds :: string
  g_mode :: pyval
  g_layers :: string

definition parent_name :: "raw_group \<Rightarrow> string" where
  "parent_name g = getattr (rg_name g) NA"

definition group_entry :: "raw_group \<Rightarrow> group" where
  "group_entry g =
     (let workspace_name = (case rg_workspace g of Some w \<Rightarrow> getattr w NA | None \<Rightarrow> NA);
          bounds = getattr (rg_bounds g) (PStr NA);
          title = getattr (rg_title g) (PStr NA);
          mode = getattr (rg_mode g) (PStr NA);
          layers = join '', '' (map member_name (rg_layers g));
          crs = extract_epsg_code (PStr (py_str bounds))
      in \<lparr>g_workspace_name = workspace_name, g_group_name = parent_name g, g_title = title,
          g_crs = crs, g_bounds = py_str bounds, g_mode = mode, g_layers = layers\<rparr>)"

text \<open>Lines 125 to 129: every member of the group is given the group as its parent; a name
  listed again, in this group or a later one, is overwritten.\<close>

definition associate :: "(string \<rightharpoonup> string) \<Rightarrow> raw_group \<Rightarrow> (string \<rightharpoonup> string)" where
  "associate group_to_layers g =
     foldl (\<lambda>m layer. m(member_name layer \<mapsto> parent_name g)) group_to_layers (rg_layers g)"

definition fetch_group_details :: "raw_group list \<Rightarrow> group list \<times> (string \<rightharpoonup> string)" where
  "fetch_group_details cat_layergroups =
     (sort_key g_group_name (map group_entry cat_layergroups),
      foldl associate Map.empty cat_layergroups)"

section \<open>Style lookups over HTTP\<close>

text \<open>
  \<open>status_code\<close> and the parsed body of a reply; the body is \<open>None\<close> when it is not JSON
  (\<^verbatim>\<open>response.json()\<close> raises). The network gives the outcome of the \<open>k\<close>-th request of the
  run for a URL: a reply, or the exception \<^verbatim>\<open>requests.get\<close> raised.
\<close>

record response =
  status_code :: int
  json_body :: "json option"

type_synonym network = "nat \<Rightarrow> string \<Rightarrow> error + response"

text \<open>\<^verbatim>\<open>d.get(key, default)\<close>; only a dict has \<^verbatim>\<open>get\<close>.\<close>

fun py_get :: "json \<Rightarrow> string \<Rightarrow> json \<Rightarrow> error + json" where
  "py_get (JDict items) key d = Inr (case map_of items key of Some v \<Rightarrow> v | None \<Rightarrow> d)"
| "py_get _ key d = Inl AttributeError"

definition layer_url :: "string \<Rightarrow> string" where
  "layer_url layer_name = geoserver_url @ ''/layers/'' @ layer_name @ ''.json''"

definition response_json :: "response \<Rightarrow> error + json" where
  "response_json r = (case json_body r of Some j \<Rightarrow> Inr j | None \<Rightarrow> Inl JSONDecodeError)"

definition fetch_default_style :: "network \<Rightarrow> nat \<Rightarrow> string \<Rightarrow> error + json" where
  "fetch_default_style net k layer_name =
     (case net k (layer_url layer_name) of
        Inl e \<Rightarrow> Inl e
      | Inr response \<Rightarrow>
          if status_code response = 200 then
            (case response_json response of
               Inl e \<Rightarrow> Inl e
             | Inr layer_data \<Rightarrow>
                 (case py_get layer_data ''layer'' (JDict []) of
                    Inl e \<Rightarrow> Inl e
                  | Inr layer \<Rightarrow>
                      (case py_get layer ''defaultStyle'' (JDict []) of
                         Inl e \<Rightarrow> Inl e
                       | Inr default_style \<Rightarrow> py_get default_style ''name'' (JVal (PStr NA)))))
          else Inr (JVal (PStr NA)))"

text \<open>\<^verbatim>\<open>for style in x\<close>: a list gives its items, a dict its keys, a string its characters;
  nothing else can be iterated.\<close>

fun py_iter :: "json \<Rightarrow> error + json list" where
  "py_iter (JList xs) = Inr xs"
| "py_iter (JDict items) = Inr (map (\<lambda>(k, v). JVal (PStr k)) items)"
| "py_iter (JVal (PStr s)) = Inr (map (\<lambda>c. JVal (PStr [c])) s)"
| "py_iter (JVal v) = Inl TypeError"

fun is_dict :: "json \<Rightarrow> bool" where
  "is_dict (JDict items) = True"
| "is_dict _ = False"

text \<open>The name of a style, for an item that is a dict (the comprehension keeps only
  those).\<close>

fun style_name_of :: "json \<Rightarrow> json" where
  "style_name_of (JDict items) = (case map_of items ''name'' of Some v \<Rightarrow> v | None \<Rightarrow> JVal (PStr NA))"
| "style_name_of j = j"

text \<open>\<^verbatim>\<open>', '.join(xs)\<close> on values: every item must be a string.\<close>

fun str_items :: "json list \<Rightarrow> error + string list" where
  "str_items [] = Inr []"
| "str_items (JVal (PStr s) # xs) =
     (case str_items xs of Inl e \<Rightarrow> Inl e | Inr ss \<Rightarrow> Inr (s # ss))"
| "str_items (_ # xs) = Inl TypeError"

definition join_values :: "json list \<Rightarrow> error + string" where
  "join_values xs = (case str_items xs of Inl e \<Rightarrow> Inl e | Inr ss \<Rightarrow> Inr (join '', '' ss))"

definition fetch_available_styles :: "network \<Rightarrow> nat \<Rightarrow> string \<Rightarrow> error + string" where
  "fetch_available_styles net k layer_name =
     (case net k (layer_url layer_name) of
        Inl e \<Rightarrow> Inl e
      | Inr response \<Rightarrow>
          if status_code response = 200 then
            (case response_json response of
               Inl e \<Rightarrow> Inl e
             | Inr layer_data \<Rightarrow>
                 (case py_get layer_data ''layer'' (JDict []) of
                    Inl e \<Rightarrow> Inl e
                  | Inr layer \<Rightarrow>
                      (case py_get layer ''styles'' (JDict []) of
                         Inl e \<Rightarrow> Inl e
                       | Inr styles_data \<Rightarrow>
                           (case styles_data of
                              JDict items \<Rightarrow>
                                (case map_of items ''style'' of
                                   Some style_list \<Rightarrow>
                                     (case py_iter style_list of
                                        Inl e \<Rightarrow> Inl e
                                      | Inr styles \<Rightarrow>
                                          (let available_styles =
                                                 map style_name_of (filter is_dict styles)
                                           in if available_styles \<noteq> []
                                              then join_values available_styles
                                              else Inr NA))
                                 | None \<Rightarrow> Inr NA)
                            | _ \<Rightarrow> Inr NA))))
          else Inr NA)"

section \<open>Layers\<close>

text \<open>\<open>rl_store\<close> is \<^verbatim>\<open>layer.resource.store\<close>: \<open>None\<close> when the resource has no store.\<close>

record raw_resource_store =
  rrs_workspace_name :: string
  rrs_name :: "string option"

record raw_layer =
  rl_name :: string
  rl_store :: "raw_resource_store option"
  rl_latlon_bbox :: "pyval option"
  rl_title :: "pyval option"
  rl_abstract :: "pyval option"

record layer =
  l_workspace_name :: string
  l_store :: string
  l_group_name :: string
  l_name :: string
  l_title :: pyval
  l_default_style :: json
  l_available_styles :: string
  l_crs :: string
  l_bbox :: pyval
  l_abstract :: pyval

text \<open>The body of the loop of \<^verbatim>\<open>fetch_layer_details\<close> for one layer; its two lookups are the
  requests \<open>k\<close> and \<open>k + 1\<close> of the run.\<close>

definition layer_entry ::
  "network \<Rightarrow> nat \<Rightarrow> (string \<rightharpoonup> string) \<Rightarrow> raw_layer \<Rightarrow> error + layer" where
  "layer_entry net k group_to_layers l =
     (let parent_group = (case group_to_layers (rl_name l) of Some g \<Rightarrow> g | None \<Rightarrow> NA);
          bbox = getattr (rl_latlon_bbox l) (PStr NA);
          crs = extract_epsg_code bbox
      in case fetch_default_style net k (rl_name l) of
           Inl e \<Rightarrow> Inl e
         | Inr default_style \<Rightarrow>
             (case fetch_available_styles net (k + 1) (rl_name l) of
                Inl e \<Rightarrow> Inl e
              | Inr available_styles \<Rightarrow>
                  Inr \<lparr>l_workspace_name =
                         (case rl_store l of Some st \<Rightarrow> rrs_workspace_name st | None \<Rightarrow> NA),
                       l_store = (case rl_store l of Some st \<Rightarrow> getattr (rrs_name st) NA | None \<Rightarrow> NA),
                       l_group_name = parent_group,
                       l_name = rl_name l,
                       l_title = getattr (rl_title l) (PStr NA),
                       l_default_style = default_style,
                       l_available_styles = available_styles,
                       l_crs = crs,
                       l_bbox = bbox,
                       l_abstract = getattr (rl_abstract l) (PStr NA)\<rparr>))"

fun layer_entries ::
  "network \<Rightarrow> nat \<Rightarrow> (string \<rightharpoonup> string) \<Rightarrow> raw_layer list \<Rightarrow> error + layer list" where
  "layer_entries net k group_to_layers [] = Inr []"
| "layer_entries net k group_to_layers (l # ls) =
     (case layer_entry net k group_to_layers l of
        Inl e \<Rightarrow> Inl e
      | Inr entry \<Rightarrow>
          (case layer_entries net (k + 2) group_to_layers ls of
             Inl e \<Rightarrow> Inl e
           | Inr entries \<Rightarrow> Inr (entry # entries)))"

definition layer_key :: "layer \<Rightarrow> string \<times> string \<times> string \<times> string" where
  "layer_key x = (l_workspace_name x, l_store x, l_group_name x, l_name x)"

definition fetch_layer_details ::
  "network \<Rightarrow> (string \<rightharpoonup> string) \<Rightarrow> raw_layer list \<Rightarrow> error + layer list" where
  "fetch_layer_details net group_to_layers cat_layers =
     (case layer_entries net 0 group_to_layers cat_layers of
        Inl e \<Rightarrow> Inl e
      | Inr layers \<Rightarrow> Inr (sort_key layer_key layers))"

section \<open>The workbook\<close>

text \<open>
  A cell holds a value, a hyperlink target (if any) and the name of its style. A sheet is
  the list of its rows, the header first; \<^verbatim>\<open>iter_rows(min_row=2)\<close> is the rows after the
  header. A workbook is the list of its sheets with their titles; \<^verbatim>\<open>wb[title]\<close> is the first
  sheet with that title. The sheets here are filled by appends of one width each, so a row
  is as wide as its sheet; reading a cell beyond a row's width is \<^verbatim>\<open>IndexError\<close>.
  The sink keeps the title it is asked for (what it does with a title that is taken or that it
  refuses is outside the model), and view properties, column widths, fonts and tab colours
  are not part of a sheet here.
\<close>

record cell =
  cell_value :: pyval
  cell_hyperlink :: "string option"
  cell_style :: string

type_synonym row = "cell list"
type_synonym worksheet = "row list"
type_synonym workbook = "(string \<times> worksheet) list"

definition new_cell :: "pyval \<Rightarrow> cell" where
  "new_cell v = \<lparr>cell_value = v, cell_hyperlink = None, cell_style = ''Normal''\<rparr>"

text \<open>A cell takes a scalar only: the sink refuses a list or a dict (\<^verbatim>\<open>ValueError\<close>).\<close>

fun to_cell :: "json \<Rightarrow> error + cell" where
  "to_cell (JVal v) = Inr (new_cell v)"
| "to_cell _ = Inl ValueError"

definition ws_append :: "worksheet \<Rightarrow> json list \<Rightarrow> error + worksheet" where
  "ws_append ws content =
     (case collect (map to_cell content) of Inl e \<Rightarrow> Inl e | Inr cells \<Rightarrow> Inr (ws @ [cells]))"

fun ws_append_all :: "worksheet \<Rightarrow> json list list \<Rightarrow> error + worksheet" where
  "ws_append_all ws [] = Inr ws"
| "ws_append_all ws (content # rest) =
     (case ws_append ws content of Inl e \<Rightarrow> Inl e | Inr ws' \<Rightarrow> ws_append_all ws' rest)"

definition wb_get :: "workbook \<Rightarrow> string \<Rightarrow> error + worksheet" where
  "wb_get wb title = (case map_of wb title of Some ws \<Rightarrow> Inr ws | None \<Rightarrow> Inl KeyError)"

definition data_rows :: "worksheet \<Rightarrow> row list" where
  "data_rows ws = drop 1 ws"

text \<open>\<^verbatim>\<open>cell.hyperlink = target; cell.style = "Hyperlink"\<close>.\<close>

definition set_hyperlink :: "string \<Rightarrow> cell \<Rightarrow> cell" where
  "set_hyperlink target c = c\<lparr>cell_hyperlink := Some target, cell_style := ''Hyperlink''\<rparr>"

text \<open>\<^verbatim>\<open>ws.cell(row=r, column=c)\<close>, rows and columns counted from 1: the cell there, new and
  empty when the sheet has none, given to \<open>f\<close>.\<close>

definition ws_cell_update :: "nat \<Rightarrow> nat \<Rightarrow> (cell \<Rightarrow> cell) \<Rightarrow> worksheet \<Rightarrow> worksheet" where
  "ws_cell_update r c f ws =
     (let rows = ws @ replicate (r - length ws) [];
          old = rows ! (r - 1);
          wide = old @ replicate (c - length old) (new_cell PNone)
      in rows[r - 1 := wide[c - 1 := f (wide ! (c - 1))]])"

definition add_header_hyperlinks :: "worksheet \<Rightarrow> worksheet" where
  "add_header_hyperlinks ws =
     ws_cell_update 1 8 (set_hyperlink ''#'Styles'!A1'')
       (ws_cell_update 1 6 (set_hyperlink ''#'Layers'!A1'')
         (ws_cell_update 1 3 (set_hyperlink ''#'Layer Groups'!A1'')
           (ws_cell_update 1 2 (set_hyperlink ''#'Stores'!A1'')
             (ws_cell_update 1 1 (set_hyperlink ''#'Workspaces'!A1'') ws))))"

definition add_header_hyperlinks_layer_groups :: "worksheet \<Rightarrow> worksheet" where
  "add_header_hyperlinks_layer_groups ws = ws_cell_update 1 6 (set_hyperlink ''#'Layers'!A1'') ws"

section \<open>The Layer Groups sheet\<close>


definition store_row :: "store \<Rightarrow> json list" where
  "store_row store =
     [JVal (PStr (s_workspace_name store)), JVal (PStr (s_store_name store)),
      JVal (PStr (s_store_url store))]"

definition group_row :: "group \<Rightarrow> json list" where
  "group_row grp =
     [JVal (PStr (g_group_name grp)), JVal (g_title grp), JVal (PStr (g_crs grp)),
      JVal (PStr (g_bounds grp)), JVal (g_mode grp), JVal (PStr (g_layers grp))]"

definition layer_row :: "layer \<Rightarrow> json list" where
  "layer_row layer =
     [JVal (PStr (l_workspace_name layer)), JVal (PStr (l_store layer)),
      JVal (PStr (l_group_name layer)), JVal (PStr (l_name layer)), JVal (l_title layer),
      l_default_style layer, JVal (PStr (l_available_styles layer)), JVal (PStr (l_crs layer)),
      JVal (PStr (py_str (l_bbox layer))), JVal (l_abstract layer)]"

definition header_row :: "string list \<Rightarrow> json list" where
  "header_row titles = map (\<lambda>t. JVal (PStr t)) titles"

text \<open>The keys of a dict filled in list order: each key once, where it came first.\<close>

definition dict_keys :: "'a list \<Rightarrow> 'a list" where
  "dict_keys ks = rev (remdups (rev ks))"

text \<open>Lines 400 to 423 of \<^verbatim>\<open>write_to_excel\<close>: the header, one row for each group, then a link
  from the first cell of row \<open>idx\<close> to the sheet of the \<open>idx\<close>-th group name, and the link of
  the header.\<close>

definition group_sheet_title :: "string \<Rightarrow> string" where
  "group_sheet_title group_name = ''Group '' @ take 25 group_name"

definition layer_groups_sheet :: "group list \<Rightarrow> error + worksheet" where
  "layer_groups_sheet groups =
     (case ws_append_all []
             (header_row [''Group Name'', ''Title'', ''CRS'', ''Bounds'', ''Mode'', ''Layers'']
              # map group_row groups) of
        Inl e \<Rightarrow> Inl e
      | Inr ws_groups \<Rightarrow>
          Inr (add_header_hyperlinks_layer_groups
                 (foldl (\<lambda>ws (idx, group_name).
                           ws_cell_update idx 1
                             (set_hyperlink (''#'' @ [CHR 0x27] @ group_sheet_title group_name
                                               @ [CHR 0x27] @ ''!A1'')) ws)
                    ws_groups
                    (enumerate 2 (dict_keys (map g_group_name groups))))))"

section \<open>Group worksheets\<close>

text \<open>Lines 188 to 212: the row of one member name. The first layer with that name is the
  match; a layer record is never empty, so a match is always taken.\<close>

definition member_row :: "group \<Rightarrow> layer list \<Rightarrow> string \<Rightarrow> json list" where
  "member_row grp layers layer_name =
     (case find (\<lambda>layer. l_name layer = layer_name) layers of
        Some matching_layer \<Rightarrow>
          [JVal (PStr (l_workspace_name matching_layer)),
           JVal (PStr (l_store matching_layer)),
           JVal (PStr (g_group_name grp)),
           JVal (g_title grp),
           JVal (PStr ''Layer''),
           JVal (PStr (l_name matching_layer)),
           JVal (l_title matching_layer),
           l_default_style matching_layer]
      | None \<Rightarrow>
          [JVal (PStr (g_workspace_name grp)),
           JVal (PStr NA),
           JVal (PStr (g_group_name grp)),
           JVal (g_title grp),
           JVal (PStr ''Layer Group''),
           JVal (PStr layer_name),
           JVal (PStr NA),
           JVal (PStr NA)])"

text \<open>A dict read off a sheet: for the data row \<open>idx\<close> (counted from 0), the value of
  column \<open>col\<close> is mapped to \<open>entry idx row\<close>.\<close>

definition column_dict ::
  "nat \<Rightarrow> nat \<Rightarrow> (nat \<Rightarrow> row \<Rightarrow> 'v) \<Rightarrow> worksheet \<Rightarrow> error + (pyval \<rightharpoonup> 'v)" where
  "column_dict width col entry ws =
     (case collect (map (\<lambda>(idx, row).
                           if width \<le> length row then Inr (cell_value (row ! col), entry idx row)
                           else Inl IndexError)
                      (enumerate 0 (data_rows ws))) of
        Inl e \<Rightarrow> Inl e
      | Inr items \<Rightarrow> Inr (py_dict items))"

definition sheet_dict ::
  "workbook \<Rightarrow> string \<Rightarrow> nat \<Rightarrow> nat \<Rightarrow> (nat \<Rightarrow> row \<Rightarrow> 'v) \<Rightarrow> error + (pyval \<rightharpoonup> 'v)" where
  "sheet_dict wb title width col entry =
     (case wb_get wb title of Inl e \<Rightarrow> Inl e | Inr ws \<Rightarrow> column_dict width col entry ws)"

definition on_data_rows :: "(row \<Rightarrow> error + row) \<Rightarrow> worksheet \<Rightarrow> error + worksheet" where
  "on_data_rows f ws =
     (case collect (map f (data_rows ws)) of Inl e \<Rightarrow> Inl e | Inr rows \<Rightarrow> Inr (take 1 ws @ rows))"

text \<open>\<^verbatim>\<open>populate_child_title\<close>: for a row of type "Layer Group", the title of the group whose
  name is the member name without \<^verbatim>\<open>cgs:\<close>, when the Layer Groups sheet has one.\<close>

definition populate_child_title_row :: "(pyval \<rightharpoonup> pyval) \<Rightarrow> row \<Rightarrow> error + row" where
  "populate_child_title_row layer_group_map row =
     (if length row < 5 then Inl IndexError
      else if cell_value (row ! 4) \<noteq> PStr ''Layer Group'' then Inr row
      else if length row < 6 then Inl IndexError
      else (case cell_value (row ! 5) of
              PStr s \<Rightarrow>
                (case layer_group_map (PStr (replace_cgs s)) of
                   None \<Rightarrow> Inr row
                 | Some title \<Rightarrow>
                     if length row < 7 then Inl IndexError
                     else Inr (row[6 := (row ! 6)\<lparr>cell_value := title\<rparr>]))
            | _ \<Rightarrow> Inl AttributeError))"

definition populate_child_title :: "workbook \<Rightarrow> worksheet \<Rightarrow> error + worksheet" where
  "populate_child_title wb ws =
     (case sheet_dict wb ''Layer Groups'' 2 0 (\<lambda>idx row. cell_value (row ! 1)) of
        Inl e \<Rightarrow> Inl e
      | Inr layer_group_map \<Rightarrow> on_data_rows (populate_child_title_row layer_group_map) ws)"

text \<open>\<^verbatim>\<open>add_layer_group_hyperlinks\<close>: for a row of type "Layer Group", a link from the member
  cell to the row of that group in the Layer Groups sheet.\<close>

definition cell_address :: "string \<Rightarrow> nat \<Rightarrow> string" where
  "cell_address column idx = column @ str_of_nat (idx + 2)"

definition add_layer_group_hyperlinks_row :: "(pyval \<rightharpoonup> string) \<Rightarrow> row \<Rightarrow> error + row" where
  "add_layer_group_hyperlinks_row group_name_map row =
     (if length row < 5 then Inl IndexError
      else if cell_value (row ! 4) \<noteq> PStr ''Layer Group'' then Inr row
      else if length row < 6 then Inl IndexError
      else (case cell_value (row ! 5) of
              PStr s \<Rightarrow>
                (case group_name_map (PStr (replace_cgs s)) of
                   None \<Rightarrow> Inr row
                 | Some address \<Rightarrow>
                     Inr (row[5 := set_hyperlink (''#'Layer Groups'!'' @ address) (row ! 5)]))
            | _ \<Rightarrow> Inl AttributeError))"

definition add_layer_group_hyperlinks :: "workbook \<Rightarrow> worksheet \<Rightarrow> error + worksheet" where
  "add_layer_group_hyperlinks wb ws =
     (case sheet_dict wb ''Layer Groups'' 1 0 (\<lambda>idx row. cell_address ''A'' idx) of
        Inl e \<Rightarrow> Inl e
      | Inr group_name_map \<Rightarrow> on_data_rows (add_layer_group_hyperlinks_row group_name_map) ws)"

text \<open>\<^verbatim>\<open>link_columns_with_sheets\<close>: a cell whose value is a key of its column's lookup gets
  the link stored for that key.\<close>

definition link_cell :: "(pyval \<rightharpoonup> string) \<Rightarrow> string \<Rightarrow> cell \<Rightarrow> cell" where
  "link_cell lookup prefix c =
     (case lookup (cell_value c) of
        Some address \<Rightarrow> set_hyperlink (prefix @ address) c
      | None \<Rightarrow> c)"

record lookups =
  workspace_lookup :: "pyval \<rightharpoonup> string"
  store_lookup :: "pyval \<rightharpoonup> string"
  group_lookup :: "pyval \<rightharpoonup> string"
  layer_lookup :: "pyval \<rightharpoonup> string"
  style_lookup :: "pyval \<rightharpoonup> string"

definition link_row :: "lookups \<Rightarrow> row \<Rightarrow> error + row" where
  "link_row L row =
     (if length row < 8 then Inl IndexError
      else Inr (row[0 := link_cell (workspace_lookup L) ''#'' (row ! 0),
                    1 := link_cell (store_lookup L) ''#'' (row ! 1),
                    2 := link_cell (group_lookup L) ''#'Layer Groups'!'' (row ! 2),
                    5 := link_cell (layer_lookup L) ''#'' (row ! 5),
                    7 := link_cell (style_lookup L) ''#'' (row ! 7)]))"

definition make_lookups :: "workbook \<Rightarrow> error + lookups" where
  "make_lookups wb =
     (case sheet_dict wb ''Workspaces'' 1 0 (\<lambda>idx row. cell_address ''Workspaces!A'' idx) of
        Inl e \<Rightarrow> Inl e
      | Inr wl \<Rightarrow>
     (case sheet_dict wb ''Stores'' 2 1 (\<lambda>idx row. cell_address ''Stores!B'' idx) of
        Inl e \<Rightarrow> Inl e
      | Inr sl \<Rightarrow>
     (case sheet_dict wb ''Layer Groups'' 1 0 (\<lambda>idx row. cell_address ''A'' idx) of
        Inl e \<Rightarrow> Inl e
      | Inr gl \<Rightarrow>
     (case sheet_dict wb ''Layers'' 4 3 (\<lambda>idx row. cell_address ''Layers!D'' idx) of
        Inl e \<Rightarrow> Inl e
      | Inr ll \<Rightarrow>
     (case sheet_dict wb ''Styles'' 1 0 (\<lambda>idx row. cell_address ''Styles!A'' idx) of
        Inl e \<Rightarrow> Inl e
      | Inr stl \<Rightarrow>
          Inr \<lparr>workspace_lookup = wl, store_lookup = sl, group_lookup = gl,
               layer_lookup = ll, style_lookup = stl\<rparr>)))))"

definition link_columns_with_sheets :: "worksheet \<Rightarrow> workbook \<Rightarrow> error + worksheet" where
  "link_columns_with_sheets ws wb =
     (case make_lookups wb of Inl e \<Rightarrow> Inl e | Inr L \<Rightarrow> on_data_rows (link_row L) ws)"

definition group_header :: "string list" where
  "group_header = [''Workspace'', ''Store'', ''Group'', ''Group title'', ''Type'', ''Layer'',
                   ''Child title'', ''Style'']"

text \<open>The body of the loop of \<^verbatim>\<open>create_group_worksheets\<close> for one group: header, one row for
  each piece of the joined member names, then the four passes over the sheet. The lookups
  read the five sheets with fixed titles, which no group sheet can have.\<close>

definition group_worksheet :: "workbook \<Rightarrow> group \<Rightarrow> layer list \<Rightarrow> error + worksheet" where
  "group_worksheet wb grp layers =
     (case ws_append_all []
             (header_row group_header
              # map (member_row grp layers) (split_comma (g_layers grp))) of
        Inl e \<Rightarrow> Inl e
      | Inr ws \<Rightarrow>
     (case populate_child_title wb ws of
        Inl e \<Rightarrow> Inl e
      | Inr ws \<Rightarrow>
     (case link_columns_with_sheets (add_header_hyperlinks ws) wb of
        Inl e \<Rightarrow> Inl e
      | Inr ws \<Rightarrow> add_layer_group_hyperlinks wb ws)))"

fun create_group_worksheets :: "workbook \<Rightarrow> group list \<Rightarrow> layer list \<Rightarrow> error + workbook" where
  "create_group_worksheets wb [] layers = Inr wb"
| "create_group_worksheets wb (grp # groups) layers =
     (case group_worksheet wb grp layers of
        Inl e \<Rightarrow> Inl e
      | Inr ws \<Rightarrow>
          create_group_worksheets (wb @ [(group_sheet_title (g_group_name grp), ws)]) groups
            layers)"

section \<open>Reading a sheet\<close>

text \<open>
  Notions the properties are stated with; none of them is part of the program.
  \<^item> \<open>sheet_values\<close>: the values of a sheet, row by row, without the annotations.
  \<^item> \<open>scalar\<close>: the value a cell holds once the sink has taken a stored item.
  \<^item> \<open>group_values\<close>: the values of the row of a group in the Layer Groups sheet.
  \<^item> \<open>titled_row\<close>: the values of the row of a member name in a group sheet, once
    \<^verbatim>\<open>populate_child_title\<close> has run, \<open>m\<close> being the titles read off the Layer Groups sheet.
  \<^item> \<open>column_items\<close>: the items of the dict that \<open>column_dict\<close> builds, in row order.
  \<^item> \<open>wb_ready\<close>: the five sheets the passes read are in the workbook and their data
    rows are as wide as the columns read.
  \<^item> \<open>column_lookup\<close>: the lookup and the link prefix that \<^verbatim>\<open>link_columns_with_sheets\<close>
    uses for a column (counted from 0), if it links the column.
  \<^item> \<open>column_source\<close>: for such a column, the sheet its lookup is read from, the key
    column there, and the text before the row number in an address.
  \<^item> \<open>strip_cgs_prefix\<close>: a name without the prefix \<^verbatim>\<open>cgs:\<close>, when it starts with it.
  \<^item> \<open>has_cgs\<close>: \<^verbatim>\<open>cgs:\<close> occurs somewhere in a string.
  \<^item> \<open>keys_filled\<close>: no data row of a sheet that a lookup is read from has an empty
    cell (\<^verbatim>\<open>None\<close>) in the key column.
\<close>

definition sheet_values :: "worksheet \<Rightarrow> pyval list list" where
  "sheet_values ws = map (map cell_value) ws"

fun scalar :: "json \<Rightarrow> pyval" where
  "scalar (JVal v) = v"
| "scalar _ = PNone"

definition group_values :: "group \<Rightarrow> pyval list" where
  "group_values grp =
     [PStr (g_group_name grp), g_title grp, PStr (g_crs grp), PStr (g_bounds grp), g_mode grp,
      PStr (g_layers grp)]"

definition titled_row :: "(pyval \<rightharpoonup> pyval) \<Rightarrow> group \<Rightarrow> layer list \<Rightarrow> string \<Rightarrow> pyval list" where
  "titled_row m grp layers name =
     (case find (\<lambda>layer. l_name layer = name) layers of
        Some l \<Rightarrow>
          [PStr (l_workspace_name l), PStr (l_store l), PStr (g_group_name grp), g_title grp,
           PStr ''Layer'', PStr (l_name l), l_title l, scalar (l_default_style l)]
      | None \<Rightarrow>
          [PStr (g_workspace_name grp), PStr NA, PStr (g_group_name grp), g_title grp,
           PStr ''Layer Group'', PStr name,
           (case m (PStr (replace_cgs name)) of Some t \<Rightarrow> t | None \<Rightarrow> PStr NA),
           PStr NA])"

definition column_items :: "nat \<Rightarrow> (nat \<Rightarrow> row \<Rightarrow> 'v) \<Rightarrow> worksheet \<Rightarrow> (pyval \<times> 'v) list" where
  "column_items col entry ws =
     map (\<lambda>(idx, row). (cell_value (row ! col), entry idx row)) (enumerate 0 (data_rows ws))"

definition wide_sheet :: "workbook \<Rightarrow> string \<Rightarrow> nat \<Rightarrow> bool" where
  "wide_sheet wb title width =
     (case map_of wb title of
        Some ws \<Rightarrow> list_all (\<lambda>row. width \<le> length row) (data_rows ws)
      | None \<Rightarrow> False)"

definition wb_ready :: "workbook \<Rightarrow> bool" where
  "wb_ready wb \<longleftrightarrow>
     wide_sheet wb ''Workspaces'' 1 \<and> wide_sheet wb ''Stores'' 2 \<and>
     wide_sheet wb ''Layer Groups'' 2 \<and> wide_sheet wb ''Layers'' 4 \<and>
     wide_sheet wb ''Styles'' 1"

definition column_lookup :: "lookups \<Rightarrow> nat \<Rightarrow> ((pyval \<rightharpoonup> string) \<times> string) option" where
  "column_lookup L c =
     (if c = 0 then Some (workspace_lookup L, ''#'')
      else if c = 1 then Some (store_lookup L, ''#'')
      else if c = 2 then Some (group_lookup L, ''#'Layer Groups'!'')
      else if c = 5 then Some (layer_lookup L, ''#'')
      else if c = 7 then Some (style_lookup L, ''#'')
      else None)"

definition column_source :: "nat \<Rightarrow> (string \<times> nat \<times> string) option" where
  "column_source c =
     (if c = 0 then Some (''Workspaces'', 0, ''Workspaces!A'')
      else if c = 1 then Some (''Stores'', 1, ''Stores!B'')
      else if c = 2 then Some (''Layer Groups'', 0, ''A'')
      else if c = 5 then Some (''Layers'', 3, ''Layers!D'')
      else if c = 7 then Some (''Styles'', 0, ''Styles!A'')
      else None)"



definition keys_filled :: "workbook \<Rightarrow> bool" where
  "keys_filled wb \<longleftrightarrow>
     list_all
       (\<lambda>c. case column_source c of
              Some (title, kc, pre) \<Rightarrow>
                (case map_of wb title of
                   Some sheet \<Rightarrow> list_all (\<lambda>row. cell_value (row ! kc) \<noteq> PNone) (data_rows sheet)
                 | None \<Rightarrow> True)
            | None \<Rightarrow> True)
       [0, 1, 2, 5, 7]"

section \<open>A small catalog\<close>

text \<open>
  Two groups and two layers, used to run the model: group \<open>g1\<close> lists the layers \<open>L1\<close> and
  \<open>L2\<close>; group \<open>g0\<close>, fetched after it, lists \<open>cgs:g1\<close>, \<open>L1\<close> again and \<open>ghost\<close>. The
  first request of the run is answered with the style data of a layer, the second and third
  with an error status, any later one with an empty object.
\<close>

definition ex_net :: network where
  "ex_net k url =
     (if k = 0 then
        Inr \<lparr>status_code = 200,
             json_body = Some (JDict [(''layer'',
               JDict [(''defaultStyle'', JDict [(''name'', JVal (PStr ''s1''))]),
                      (''styles'', JDict [(''style'',
                         JList [JDict [(''name'', JVal (PStr ''s1''))],
                                JDict [(''name'', JVal (PStr ''s2''))]])])])])\<rparr>
      else if k = 1 then Inr \<lparr>status_code = 404, json_body = None\<rparr>
      else if k = 2 then Inr \<lparr>status_code = 500, json_body = None\<rparr>
      else Inr \<lparr>status_code = 200, json_body = Some (JDict [])\<rparr>)"

definition ex_groups :: "raw_group list" where
  "ex_groups =
     [\<lparr>rg_workspace = Some (Some ''ws1''), rg_name = Some ''g1'',
       rg_bounds = Some (PStr ''(1, 2, 3, 4, EPSG:4326)''), rg_title = Some (PStr ''One''),
       rg_mode = Some (PStr ''SINGLE''), rg_layers = [Name ''L1'', LayerObj ''L2'']\<rparr>,
      \<lparr>rg_workspace = None, rg_name = Some ''g0'', rg_bounds = None, rg_title = Some PNone,
       rg_mode = None, rg_layers = [Name ''cgs:g1'', Name ''L1'', Name ''ghost'']\<rparr>]"

definition ex_layers :: "raw_layer list" where
  "ex_layers =
     [\<lparr>rl_name = ''L2'', rl_store = Some \<lparr>rrs_workspace_name = ''ws1'', rrs_name = Some ''st1''\<rparr>,
       rl_latlon_bbox = Some (PStr ''(0, 1, 0, 1, EPSG:4326)''), rl_title = Some (PStr ''Two''),
       rl_abstract = None\<rparr>,
      \<lparr>rl_name = ''L1'', rl_store = Some \<lparr>rrs_workspace_name = ''ws1'', rrs_name = Some ''st1''\<rparr>,
       rl_latlon_bbox = None, rl_title = Some (PStr ''L1''), rl_abstract = Some PNone\<rparr>]"

text \<open>The layer records that \<^verbatim>\<open>fetch_layer_details\<close> returns for them.\<close>

definition ex_rows :: "layer list" where
  "ex_rows =
     [\<lparr>l_workspace_name = ''ws1'', l_store = ''st1'', l_group_name = ''g0'', l_name = ''L1'',
       l_title = PStr ''L1'', l_default_style = JVal (PStr NA), l_available_styles = NA,
       l_crs = NA, l_bbox = PStr NA, l_abstract = PNone\<rparr>,
      \<lparr>l_workspace_name = ''ws1'', l_store = ''st1'', l_group_name = ''g1'', l_name = ''L2'',
       l_title = PStr ''Two'', l_default_style = JVal (PStr ''s1''), l_available_styles = NA,
       l_crs = ''EPSG:4326'', l_bbox = PStr ''(0, 1, 0, 1, EPSG:4326)'',
       l_abstract = PStr NA\<rparr>]"

text \<open>The group records that \<^verbatim>\<open>fetch_group_details\<close> returns for them, and a workbook whose
  five sheets hold the values of this catalog: one workspace, one store, the two groups, the
  two layers and one style.\<close>

definition ex_norm_groups :: "group list" where
  "ex_norm_groups =
     [\<lparr>g_workspace_name = NA, g_group_name = ''g0'', g_title = PNone, g_crs = NA,
       g_bounds = NA, g_mode = PStr NA, g_layers = ''cgs:g1, L1, ghost''\<rparr>,
      \<lparr>g_workspace_name = ''ws1'', g_group_name = ''g1'', g_title = PStr ''One'',
       g_crs = ''EPSG:4326'', g_bounds = ''(1, 2, 3, 4, EPSG:4326)'', g_mode = PStr ''SINGLE'',
       g_layers = ''L1, L2''\<rparr>]"

definition ex_wb :: workbook where
  "ex_wb =
     [(''Workspaces'',
       map (map new_cell) [[PStr ''Workspace Name'', PStr ''HREF''], [PStr ''ws1'', PStr NA]]),
      (''Stores'',
       map (map new_cell)
         [[PStr ''Workspace Name'', PStr ''Store Name'', PStr ''Store URL''],
          [PStr ''ws1'', PStr ''st1'', PStr ''https://your-geoserver-url/st1.html'']]),
      (''Layer Groups'',
       (case layer_groups_sheet ex_norm_groups of Inr lg \<Rightarrow> lg | Inl e \<Rightarrow> [])),
      (''Layers'',
       map (map new_cell)
         (map PStr [''Workspace Name'', ''Store Name'', ''Group Name'', ''Layer Name'',
                    ''Child title'', ''Default style'', ''Available styles'', ''CRS'',
                    ''Bounding Box'', ''Abstract'']
          # map (map scalar \<circ> layer_row) ex_rows)),
      (''Styles'',
       map (map new_cell)
         [[PStr ''Style name'', PStr ''Style link''], [PStr ''s1'', PStr ''s1.html'']])]"

definition ex_empty_group :: group where
  "ex_empty_group =
     \<lparr>g_workspace_name = ''ws1'', g_group_name = ''g2'', g_title = PStr ''Empty'', g_crs = NA,
      g_bounds = NA, g_mode = PStr NA, g_layers = []\<rparr>"


definition ex_bare_group :: raw_group where
  "ex_bare_group =
     \<lparr>rg_workspace = None, rg_name = None, rg_bounds = None, rg_title = None, rg_mode = None,
      rg_layers = []\<rparr>"



definition ex_sheet :: worksheet where
  "ex_sheet =
     map (map new_cell)
       [map PStr group_header,
        [PStr NA, PStr NA, PStr ''g0'', PNone, PStr ''Layer Group'', PStr ''cgs:g1'',
         PStr ''One'', PStr NA],
        [PStr ''ws1'', PStr ''st1'', PStr ''g0'', PNone, PStr ''Layer'', PStr ''L1'',
         PStr ''L1'', PStr NA],
        [PStr NA, PStr NA, PStr ''g0'', PNone, PStr ''Layer Group'', PStr ''ghost'',
         PStr NA, PStr NA]]"

definition ex_down_net :: network where
  "ex_down_net k url = (if k = 1 then Inl ConnectionError else ex_net k url)"

chapter \<open>Properties\<close>

section \<open>CRS extraction\<close>

lemma takeWhile_ne_iff: "takeWhile P xs \<noteq> [] \<longleftrightarrow> (xs \<noteq> [] \<and> P (hd xs))"
  by (cases xs) auto

lemma re_match_epsg_None: "re_match_epsg t = None \<longleftrightarrow> \<not> epsg_token_at t"
  by (auto simp: re_match_epsg_def epsg_token_at_def takeWhile_ne_iff hd_drop_conv_nth Let_def)

lemma re_match_epsg_Some:
  "epsg_token_at t \<Longrightarrow> re_match_epsg t = Some (''EPSG:'' @ takeWhile is_digit (drop 5 t))"
  by (simp add: re_match_epsg_def epsg_token_at_def takeWhile_ne_iff hd_drop_conv_nth Let_def)

lemma re_search_skip:
  "\<not> epsg_token_at (c # cs) \<Longrightarrow> re_search_epsg (c # cs) = re_search_epsg cs"
  using re_match_epsg_None [of "c # cs"] by simp

lemma re_search_hit:
  "epsg_token_at t \<Longrightarrow> re_search_epsg t = Some (''EPSG:'' @ takeWhile is_digit (drop 5 t))"
proof (cases t)
  case Nil
  assume "epsg_token_at t"
  with Nil show ?thesis by (simp add: epsg_token_at_def)
next
  case (Cons c cs)
  assume "epsg_token_at t"
  from re_match_epsg_Some [OF this] Cons show ?thesis by simp
qed

lemma re_search_first:
  "(\<forall>i<length pre. \<not> epsg_token_at (drop i (pre @ t))) \<Longrightarrow>
   re_search_epsg (pre @ t) = re_search_epsg t"
proof (induction pre)
  case Nil
  then show ?case by simp
next
  case (Cons c cs)
  from Cons.prems have "\<not> epsg_token_at (drop 0 ((c # cs) @ t))" by blast
  then have h: "\<not> epsg_token_at (c # cs @ t)" by simp
  have "\<forall>i<length cs. \<not> epsg_token_at (drop i (cs @ t))"
  proof (intro allI impI)
    fix i assume "i < length cs"
    then have "Suc i < length (c # cs)" by simp
    with Cons.prems have "\<not> epsg_token_at (drop (Suc i) ((c # cs) @ t))" by blast
    then show "\<not> epsg_token_at (drop i (cs @ t))" by simp
  qed
  with Cons.IH have ih: "re_search_epsg (cs @ t) = re_search_epsg t" by blast
  show ?case by (simp only: append_Cons re_search_skip [OF h] ih)
qed

lemma re_search_none:
  "(\<forall>i<length s. \<not> epsg_token_at (drop i s)) \<Longrightarrow> re_search_epsg s = None"
  using re_search_first [of s "[]"] by simp

lemma takeWhile_run:
  "\<forall>d\<in>set ds. P d \<Longrightarrow> post = [] \<or> \<not> P (hd post) \<Longrightarrow> takeWhile P (ds @ post) = ds"
  by (cases post) (auto simp: takeWhile_append2)

lemma token_head:
  "ds \<noteq> [] \<Longrightarrow> \<forall>d\<in>set ds. is_digit d \<Longrightarrow> epsg_token_at (''EPSG:'' @ ds @ post)"
  by (cases ds) (auto simp: epsg_token_at_def startswith_def)

lemma no_token_drop_Suc:
  "(\<forall>i<Suc n. \<not> epsg_token_at (drop i (c # cs))) \<longleftrightarrow>
   \<not> epsg_token_at (c # cs) \<and> (\<forall>i<n. \<not> epsg_token_at (drop i cs))"
  by (simp add: All_less_Suc2)

text \<open>
  \<^bold>\<open>C7.\<close> CRS extraction depends on the text alone. On the two inputs of the specification
  it gives \<^verbatim>\<open>EPSG:4326\<close> and the sentinel. In general: when the text is \<open>pre\<close>, then
  \<^verbatim>\<open>EPSG:\<close>, then a non-empty run of digits \<open>ds\<close> that ends where \<open>post\<close> begins, and no
  token starts inside \<open>pre\<close>, the result is \<^verbatim>\<open>EPSG:\<close> with all of \<open>ds\<close> (the first token);
  and when no token starts anywhere in the text, the result is the sentinel \<^verbatim>\<open>N/A\<close>.
\<close>

theorem extract_epsg_code_first_token:
  "extract_epsg_code (PStr ''BBOX minx=.. EPSG:4326'') = ''EPSG:4326'' \<and>
   extract_epsg_code (PStr ''no crs here'') = NA \<and>
   (ds \<noteq> [] \<and> (\<forall>d\<in>set ds. is_digit d) \<and> (post = [] \<or> \<not> is_digit (hd post)) \<and>
    (\<forall>i<length pre. \<not> epsg_token_at (drop i (pre @ ''EPSG:'' @ ds @ post)))
      \<longrightarrow> extract_epsg_code (PStr (pre @ ''EPSG:'' @ ds @ post)) = ''EPSG:'' @ ds) \<and>
   ((\<forall>i<length s. \<not> epsg_token_at (drop i s)) \<longrightarrow> extract_epsg_code (PStr s) = NA)"
proof (intro conjI impI)
  show "extract_epsg_code (PStr ''BBOX minx=.. EPSG:4326'') = ''EPSG:4326''"
    by (simp add: extract_epsg_code_def re_match_epsg_def is_digit_def startswith_def)
  show "extract_epsg_code (PStr ''no crs here'') = NA"
    by (simp add: extract_epsg_code_def re_match_epsg_def is_digit_def startswith_def)
next
  assume a: "ds \<noteq> [] \<and> (\<forall>d\<in>set ds. is_digit d) \<and> (post = [] \<or> \<not> is_digit (hd post)) \<and>
    (\<forall>i<length pre. \<not> epsg_token_at (drop i (pre @ ''EPSG:'' @ ds @ post)))"
  let ?t = "''EPSG:'' @ ds @ post"
  from a have "re_search_epsg (pre @ ?t) = re_search_epsg ?t"
    using re_search_first [of pre ?t] by blast
  also from a have "\<dots> = Some (''EPSG:'' @ takeWhile is_digit (drop 5 ?t))"
    using re_search_hit [OF token_head [of ds post]] by blast
  also from a have "takeWhile is_digit (drop 5 ?t) = ds"
    using takeWhile_run [of ds is_digit post] by simp
  finally show "extract_epsg_code (PStr (pre @ ''EPSG:'' @ ds @ post)) = ''EPSG:'' @ ds"
    by (simp add: extract_epsg_code_def)
next
  assume "\<forall>i<length s. \<not> epsg_token_at (drop i s)"
  then show "extract_epsg_code (PStr s) = NA"
    by (simp add: extract_epsg_code_def re_search_none)
qed

theorem extract_epsg_code_first_token_witness:
  "extract_epsg_code (PStr (''EPSG:a '' @ ''EPSG:'' @ ''4326'' @ '', EPSG:1'')) = ''EPSG:'' @ ''4326'' \<and>
   extract_epsg_code (PStr ''EPSG: 12'') = NA"
proof -
  have h1: "''4326'' \<noteq> [] \<and> (\<forall>d\<in>set ''4326''. is_digit d) \<and>
      ('', EPSG:1'' = [] \<or> \<not> is_digit (hd '', EPSG:1'')) \<and>
      (\<forall>i<length ''EPSG:a ''. \<not> epsg_token_at (drop i (''EPSG:a '' @ ''EPSG:'' @ ''4326'' @ '', EPSG:1'')))"
    by (simp add: no_token_drop_Suc) (simp add: is_digit_def epsg_token_at_def startswith_def)
  have h2: "\<forall>i<length ''EPSG: 12''. \<not> epsg_token_at (drop i ''EPSG: 12'')"
    by (simp add: no_token_drop_Suc) (simp add: is_digit_def epsg_token_at_def startswith_def)
  from extract_epsg_code_first_token [of "''4326''" "'', EPSG:1''" "''EPSG:a ''" "''EPSG: 12''"] h1 h2
  show ?thesis by blast
qed

section \<open>The reverse index from layer names to groups\<close>

lemma find_snoc:
  "find P (xs @ [x]) =
     (case find P xs of Some y \<Rightarrow> Some y | None \<Rightarrow> (if P x then Some x else None))"
  by (induction xs) auto

lemma associate_apply:
  "associate m g n =
     (if n \<in> member_name ` set (rg_layers g) then Some (parent_name g) else m n)"
proof -
  have "foldl (\<lambda>m layer. m(member_name layer \<mapsto> p)) m ms n =
        (if n \<in> member_name ` set ms then Some p else m n)" for p ms
    by (induction ms arbitrary: m) auto
  then show ?thesis by (simp add: associate_def)
qed

lemma group_to_layers_apply:
  "foldl associate m groups n =
     (case find (\<lambda>g. n \<in> member_name ` set (rg_layers g)) (rev groups) of
        Some g \<Rightarrow> Some (parent_name g)
      | None \<Rightarrow> m n)"
proof (induction groups arbitrary: m)
  case Nil
  then show ?case by simp
next
  case (Cons g gs)
  have "foldl associate m (g # gs) n = foldl associate (associate m g) gs n" by simp
  also have "\<dots> = (case find (\<lambda>g. n \<in> member_name ` set (rg_layers g)) (rev gs) of
        Some g \<Rightarrow> Some (parent_name g)
      | None \<Rightarrow> associate m g n)"
    by (rule Cons.IH)
  finally show ?case
    by (simp add: find_snoc associate_apply [of m g n] split: option.split)
qed

lemma layer_entry_fields:
  "layer_entry net k g2l l = Inr row \<Longrightarrow>
   l_name row = rl_name l \<and>
   l_group_name row = (case g2l (rl_name l) of Some g \<Rightarrow> g | None \<Rightarrow> NA)"
  by (auto simp: layer_entry_def Let_def split: sum.splits)

lemma layer_entries_fields:
  "layer_entries net k g2l cl = Inr ls \<Longrightarrow>
   map l_name ls = map rl_name cl \<and>
   (\<forall>row\<in>set ls. l_group_name row = (case g2l (l_name row) of Some g \<Rightarrow> g | None \<Rightarrow> NA))"
proof (induction cl arbitrary: k ls)
  case Nil
  then show ?case by auto
next
  case (Cons l cl)
  from Cons.prems obtain row rest where
    r: "layer_entry net k g2l l = Inr row" and
    rs: "layer_entries net (k + 2) g2l cl = Inr rest" and
    ls: "ls = row # rest"
    by (auto split: sum.splits)
  from Cons.IH [OF rs] layer_entry_fields [OF r] ls show ?case by auto
qed

lemma ex_run:
  "fetch_layer_details ex_net (snd (fetch_group_details ex_groups)) ex_layers = Inr ex_rows"
  by (simp add: fetch_layer_details_def fetch_group_details_def ex_net_def ex_groups_def
      ex_layers_def ex_rows_def layer_entry_def fetch_default_style_def
      fetch_available_styles_def associate_def parent_name_def getattr_def response_json_def
      layer_key_def extract_epsg_code_def re_match_epsg_def is_digit_def startswith_def Let_def)

text \<open>
  \<^bold>\<open>C1\<close>, as the code has it. When the layers are fetched with the reverse index of the
  groups, every catalog layer gets one record, and the owning group of a record is the name
  of the last group, in the order the catalog returned the groups, whose member list holds
  the layer's name; it is the sentinel \<^verbatim>\<open>N/A\<close> when no member list holds it. So a layer that
  one group alone lists is owned by that group, and a layer listed by several groups is
  owned by the last of them.
\<close>

theorem owning_group_is_last_listing_group:
  assumes "fetch_layer_details net (snd (fetch_group_details cat_layergroups)) cat_layers
           = Inr layers"
  shows "set (map l_name layers) = set (map rl_name cat_layers) \<and>
         length layers = length cat_layers \<and>
         (\<forall>layer\<in>set layers.
            l_group_name layer =
              (case find (\<lambda>g. l_name layer \<in> member_name ` set (rg_layers g))
                         (rev cat_layergroups) of
                 Some g \<Rightarrow> g_group_name (group_entry g)
               | None \<Rightarrow> NA))"
proof -
  let ?g2l = "foldl associate Map.empty cat_layergroups"
  from assms obtain entries where
    e: "layer_entries net 0 ?g2l cat_layers = Inr entries" and
    l: "layers = sort_key layer_key entries"
    by (auto simp: fetch_layer_details_def fetch_group_details_def split: sum.splits)
  from layer_entries_fields [OF e] have
    names: "map l_name entries = map rl_name cat_layers" and
    owner: "\<forall>row\<in>set entries.
              l_group_name row = (case ?g2l (l_name row) of Some g \<Rightarrow> g | None \<Rightarrow> NA)"
    by blast+
  have "set (map l_name layers) = set (map l_name entries)"
    using l by simp
  with names have 1: "set (map l_name layers) = set (map rl_name cat_layers)" by simp
  have "length layers = length (map l_name entries)" using l by simp
  with names have 2: "length layers = length cat_layers" by simp
  have 3: "l_group_name layer =
              (case find (\<lambda>g. l_name layer \<in> member_name ` set (rg_layers g))
                         (rev cat_layergroups) of
                 Some g \<Rightarrow> g_group_name (group_entry g)
               | None \<Rightarrow> NA)" if "layer \<in> set layers" for layer
  proof -
    from that l have "layer \<in> set entries" by simp
    with owner have
      "l_group_name layer = (case ?g2l (l_name layer) of Some g \<Rightarrow> g | None \<Rightarrow> NA)"
      by blast
    then show ?thesis
      by (simp add: group_to_layers_apply group_entry_def Let_def split: option.split)
  qed
  from 1 2 3 show ?thesis by blast
qed

theorem owning_group_is_last_listing_group_witness:
  "fetch_layer_details ex_net (snd (fetch_group_details ex_groups)) ex_layers = Inr ex_rows \<and>
   length ex_rows = length ex_layers \<and>
   l_group_name (ex_rows ! 0) = g_group_name (group_entry (ex_groups ! 1)) \<and>
   l_group_name (ex_rows ! 1) = g_group_name (group_entry (ex_groups ! 0))"
proof -
  from owning_group_is_last_listing_group [OF ex_run]
  have "length ex_rows = length ex_layers \<and>
        (\<forall>layer\<in>set ex_rows.
            l_group_name layer =
              (case find (\<lambda>g. l_name layer \<in> member_name ` set (rg_layers g)) (rev ex_groups) of
                 Some g \<Rightarrow> g_group_name (group_entry g)
               | None \<Rightarrow> NA))"
    by blast
  then show ?thesis
    using ex_run by (simp add: ex_rows_def ex_groups_def)
qed

text \<open>
  The claim as it is written fails for a layer that two groups list: \<open>L1\<close> is a member of
  \<open>g1\<close>, the first group of the example, and its owning group is \<open>g0\<close>.
\<close>

theorem owning_group_not_every_listing_group:
  "map_sum id (map (\<lambda>l. (l_name l, l_group_name l)))
     (fetch_layer_details ex_net (snd (fetch_group_details ex_groups)) ex_layers)
     = Inr [(''L1'', ''g0''), (''L2'', ''g1'')] \<and>
   ''L1'' \<in> member_name ` set (rg_layers (ex_groups ! 0)) \<and>
   g_group_name (group_entry (ex_groups ! 0)) = ''g1''"
  by (simp add: ex_run) (simp add: ex_rows_def ex_groups_def group_entry_def parent_name_def getattr_def)

section \<open>Row order\<close>

text \<open>
  \<^bold>\<open>C5.\<close> The stores are returned in ascending order of (workspace name, store name), the
  groups in ascending order of group name, and the layers, when the lookups let the fetch
  finish, in ascending order of (workspace name, store name, owning group, layer name).
  Each sort is stable (records with one key keep the order they were built in) and keeps
  every record, and sorting the result again changes nothing, so the row order is a function
  of the records alone.
\<close>

theorem report_rows_sorted:
  "sorted (map (\<lambda>x. (s_workspace_name x, s_store_name x)) (fetch_store_details cat_stores)) \<and>
   (\<forall>key. filter (\<lambda>x. (s_workspace_name x, s_store_name x) = key) (fetch_store_details cat_stores)
        = filter (\<lambda>x. (s_workspace_name x, s_store_name x) = key) (map store_entry cat_stores)) \<and>
   sort_key (\<lambda>x. (s_workspace_name x, s_store_name x)) (fetch_store_details cat_stores)
     = fetch_store_details cat_stores \<and>
   sorted (map g_group_name (fst (fetch_group_details cat_layergroups))) \<and>
   (\<forall>key. filter (\<lambda>x. g_group_name x = key) (fst (fetch_group_details cat_layergroups))
        = filter (\<lambda>x. g_group_name x = key) (map group_entry cat_layergroups)) \<and>
   sort_key g_group_name (fst (fetch_group_details cat_layergroups))
     = fst (fetch_group_details cat_layergroups) \<and>
   (fetch_layer_details net group_to_layers cat_layers = Inr layers \<longrightarrow>
      sorted (map (\<lambda>x. (l_workspace_name x, l_store x, l_group_name x, l_name x)) layers) \<and>
      sort_key (\<lambda>x. (l_workspace_name x, l_store x, l_group_name x, l_name x)) layers = layers \<and>
      (\<exists>entries. layer_entries net 0 group_to_layers cat_layers = Inr entries \<and>
         (\<forall>key. filter (\<lambda>x. (l_workspace_name x, l_store x, l_group_name x, l_name x) = key) layers
              = filter (\<lambda>x. (l_workspace_name x, l_store x, l_group_name x, l_name x) = key)
                  entries)))"
proof -
  have key: "layer_key = (\<lambda>x. (l_workspace_name x, l_store x, l_group_name x, l_name x))"
    by (rule ext) (simp add: layer_key_def)
  have 1: "sorted (map (\<lambda>x. (s_workspace_name x, s_store_name x)) (fetch_store_details cat_stores))"
    by (simp add: fetch_store_details_def)
  have 2: "\<forall>key. filter (\<lambda>x. (s_workspace_name x, s_store_name x) = key) (fetch_store_details cat_stores)
        = filter (\<lambda>x. (s_workspace_name x, s_store_name x) = key) (map store_entry cat_stores)"
    unfolding fetch_store_details_def by (rule allI) (rule sort_key_stable)
  have 3: "sort_key (\<lambda>x. (s_workspace_name x, s_store_name x)) (fetch_store_details cat_stores)
     = fetch_store_details cat_stores"
    by (rule sort_key_id_if_sorted) (rule 1)
  have 4: "sorted (map g_group_name (fst (fetch_group_details cat_layergroups)))"
    by (simp add: fetch_group_details_def)
  have 5: "\<forall>key. filter (\<lambda>x. g_group_name x = key) (fst (fetch_group_details cat_layergroups))
        = filter (\<lambda>x. g_group_name x = key) (map group_entry cat_layergroups)"
    unfolding fetch_group_details_def fst_conv by (rule allI) (rule sort_key_stable)
  have 6: "sort_key g_group_name (fst (fetch_group_details cat_layergroups))
     = fst (fetch_group_details cat_layergroups)"
    by (rule sort_key_id_if_sorted) (rule 4)
  have 7: "sorted (map (\<lambda>x. (l_workspace_name x, l_store x, l_group_name x, l_name x)) layers) \<and>
      sort_key (\<lambda>x. (l_workspace_name x, l_store x, l_group_name x, l_name x)) layers = layers \<and>
      (\<exists>entries. layer_entries net 0 group_to_layers cat_layers = Inr entries \<and>
         (\<forall>key. filter (\<lambda>x. (l_workspace_name x, l_store x, l_group_name x, l_name x) = key) layers
              = filter (\<lambda>x. (l_workspace_name x, l_store x, l_group_name x, l_name x) = key)
                  entries))"
    if a: "fetch_layer_details net group_to_layers cat_layers = Inr layers"
  proof -
    from a obtain entries where
      e: "layer_entries net 0 group_to_layers cat_layers = Inr entries" and
      l: "layers = sort_key layer_key entries"
      by (auto simp: fetch_layer_details_def split: sum.splits)
    have s: "sorted (map layer_key layers)" using l by simp
    have i: "sort_key layer_key layers = layers"
      by (rule sort_key_id_if_sorted) (rule s)
    have f: "\<forall>key. filter (\<lambda>x. layer_key x = key) layers = filter (\<lambda>x. layer_key x = key) entries"
      unfolding l by (rule allI) (rule sort_key_stable)
    from s i f e show ?thesis unfolding key by blast
  qed
  from 1 2 3 4 5 6 7 show ?thesis by blast
qed

theorem report_rows_sorted_witness:
  "fetch_layer_details ex_net (snd (fetch_group_details ex_groups)) ex_layers = Inr ex_rows \<and>
   sorted (map (\<lambda>x. (l_workspace_name x, l_store x, l_group_name x, l_name x)) ex_rows) \<and>
   sorted (map g_group_name (fst (fetch_group_details ex_groups))) \<and>
   map l_name ex_rows = [''L1'', ''L2''] \<and> map rl_name ex_layers = [''L2'', ''L1'']"
  using report_rows_sorted [of "[]" ex_groups ex_net "snd (fetch_group_details ex_groups)"
      ex_layers ex_rows] ex_run
  by (simp add: ex_rows_def ex_layers_def)

section \<open>Absent attributes\<close>







section \<open>Failed style lookups\<close>

lemma fetch_default_style_failed:
  "net k (layer_url n) = Inr r \<Longrightarrow> status_code r \<noteq> 200 \<Longrightarrow>
   fetch_default_style net k n = Inr (JVal (PStr NA))"
  by (simp add: fetch_default_style_def)

lemma fetch_available_styles_failed:
  "net k (layer_url n) = Inr r \<Longrightarrow> status_code r \<noteq> 200 \<Longrightarrow>
   fetch_available_styles net k n = Inr NA"
  by (simp add: fetch_available_styles_def)

lemma layer_entries_all_failed:
  "\<forall>j url. \<exists>r. net j url = Inr r \<and> status_code r \<noteq> 200 \<Longrightarrow>
   \<exists>entries. layer_entries net k g2l cl = Inr entries \<and> length entries = length cl \<and>
     (\<forall>x\<in>set entries. l_default_style x = JVal (PStr NA) \<and> l_available_styles x = NA)"
proof (induction cl arbitrary: k)
  case Nil
  then show ?case by simp
next
  case (Cons l cl)
  from Cons.prems obtain r1 where r1: "net k (layer_url (rl_name l)) = Inr r1" "status_code r1 \<noteq> 200"
    by blast
  from Cons.prems obtain r2 where
    r2: "net (k + 1) (layer_url (rl_name l)) = Inr r2" "status_code r2 \<noteq> 200"
    by blast
  from Cons.IH [OF Cons.prems, of "k + 2"] obtain entries where
    e: "layer_entries net (k + 2) g2l cl = Inr entries" "length entries = length cl"
       "\<forall>x\<in>set entries. l_default_style x = JVal (PStr NA) \<and> l_available_styles x = NA"
    by blast
  show ?case
    using e r1 r2 fetch_default_style_failed [of net k "rl_name l" r1]
      fetch_available_styles_failed [of net "k + 1" "rl_name l" r2]
    by (simp add: layer_entry_def Let_def)
qed

lemma layer_entries_abort:
  "layer_entries net k g2l cl = Inl e \<Longrightarrow>
   \<exists>j n. fetch_default_style net j n = Inl e \<or> fetch_available_styles net j n = Inl e"
proof (induction cl arbitrary: k)
  case Nil
  then show ?case by simp
next
  case (Cons l cl)
  show ?case
  proof (cases "layer_entry net k g2l l")
    case (Inl e')
    with Cons.prems have "e' = e" by simp
    with Inl show ?thesis
      by (auto simp: layer_entry_def Let_def split: sum.splits)
  next
    case (Inr row)
    with Cons.prems have "layer_entries net (k + 2) g2l cl = Inl e"
      by (simp split: sum.splits)
    from Cons.IH [OF this] show ?thesis .
  qed
qed

text \<open>
  A style lookup that is answered with a status other than 200 gives the sentinel \<^verbatim>\<open>N/A\<close>
  for its field and nothing else: the record of the layer is built, with the other style
  field as its own lookup gave it, and the loop goes on to the next layer. When every lookup
  of a run is answered so, the fetch returns a record for every layer. A lookup ends the run
  only when the client raised, or on a reply with status 200 whose body cannot be read as
  expected; and the fetch of the layers ends the run only when a lookup does.
\<close>

lemma answered_lookup_gives_sentinel:
  "(net k (layer_url n) = Inr r \<and> status_code r \<noteq> 200 \<longrightarrow>
      fetch_default_style net k n = Inr (JVal (PStr NA)) \<and>
      fetch_available_styles net k n = Inr NA) \<and>
   (net k (layer_url (rl_name l)) = Inr r \<and> status_code r \<noteq> 200 \<and>
    fetch_available_styles net (k + 1) (rl_name l) = Inr av \<longrightarrow>
      (\<exists>x. layer_entry net k group_to_layers l = Inr x \<and>
           l_default_style x = JVal (PStr NA) \<and> l_available_styles x = av \<and>
           layer_entries net k group_to_layers (l # ls) =
             (case layer_entries net (k + 2) group_to_layers ls of
                Inl e \<Rightarrow> Inl e | Inr entries \<Rightarrow> Inr (x # entries)))) \<and>
   (fetch_default_style net k (rl_name l) = Inr ds \<and>
    net (k + 1) (layer_url (rl_name l)) = Inr r \<and> status_code r \<noteq> 200 \<longrightarrow>
      (\<exists>x. layer_entry net k group_to_layers l = Inr x \<and>
           l_default_style x = ds \<and> l_available_styles x = NA \<and>
           layer_entries net k group_to_layers (l # ls) =
             (case layer_entries net (k + 2) group_to_layers ls of
                Inl e \<Rightarrow> Inl e | Inr entries \<Rightarrow> Inr (x # entries)))) \<and>
   ((\<forall>j url. \<exists>r. net j url = Inr r \<and> status_code r \<noteq> 200) \<longrightarrow>
      (\<exists>layers. fetch_layer_details net group_to_layers cat_layers = Inr layers \<and>
         length layers = length cat_layers \<and>
         (\<forall>x\<in>set layers. l_default_style x = JVal (PStr NA) \<and> l_available_styles x = NA))) \<and>
   (fetch_default_style net k n = Inl e \<longrightarrow>
      net k (layer_url n) = Inl e \<or>
      (\<exists>r. net k (layer_url n) = Inr r \<and> status_code r = 200)) \<and>
   (fetch_available_styles net k n = Inl e \<longrightarrow>
      net k (layer_url n) = Inl e \<or>
      (\<exists>r. net k (layer_url n) = Inr r \<and> status_code r = 200)) \<and>
   (fetch_layer_details net group_to_layers cat_layers = Inl e \<longrightarrow>
      (\<exists>j n. fetch_default_style net j n = Inl e \<or> fetch_available_styles net j n = Inl e))"
proof (intro conjI impI)
  assume "net k (layer_url n) = Inr r \<and> status_code r \<noteq> 200"
  then show "fetch_default_style net k n = Inr (JVal (PStr NA))"
    and "fetch_available_styles net k n = Inr NA"
    by (simp_all add: fetch_default_style_failed fetch_available_styles_failed)
next
  assume "net k (layer_url (rl_name l)) = Inr r \<and> status_code r \<noteq> 200 \<and>
    fetch_available_styles net (k + 1) (rl_name l) = Inr av"
  then show "\<exists>x. layer_entry net k group_to_layers l = Inr x \<and>
           l_default_style x = JVal (PStr NA) \<and> l_available_styles x = av \<and>
           layer_entries net k group_to_layers (l # ls) =
             (case layer_entries net (k + 2) group_to_layers ls of
                Inl e \<Rightarrow> Inl e | Inr entries \<Rightarrow> Inr (x # entries))"
    by (simp add: layer_entry_def Let_def fetch_default_style_failed)
next
  assume "fetch_default_style net k (rl_name l) = Inr ds \<and>
    net (k + 1) (layer_url (rl_name l)) = Inr r \<and> status_code r \<noteq> 200"
  then show "\<exists>x. layer_entry net k group_to_layers l = Inr x \<and>
           l_default_style x = ds \<and> l_available_styles x = NA \<and>
           layer_entries net k group_to_layers (l # ls) =
             (case layer_entries net (k + 2) group_to_layers ls of
                Inl e \<Rightarrow> Inl e | Inr entries \<Rightarrow> Inr (x # entries))"
    by (simp add: layer_entry_def Let_def fetch_available_styles_failed)
next
  assume a: "\<forall>j url. \<exists>r. net j url = Inr r \<and> status_code r \<noteq> 200"
  from layer_entries_all_failed [OF a, of 0 group_to_layers cat_layers]
  show "\<exists>layers. fetch_layer_details net group_to_layers cat_layers = Inr layers \<and>
         length layers = length cat_layers \<and>
         (\<forall>x\<in>set layers. l_default_style x = JVal (PStr NA) \<and> l_available_styles x = NA)"
    by (auto simp: fetch_layer_details_def)
next
  assume "fetch_default_style net k n = Inl e"
  then show "net k (layer_url n) = Inl e \<or>
      (\<exists>r. net k (layer_url n) = Inr r \<and> status_code r = 200)"
    by (auto simp: fetch_default_style_def split: sum.splits if_splits)
next
  assume "fetch_available_styles net k n = Inl e"
  then show "net k (layer_url n) = Inl e \<or>
      (\<exists>r. net k (layer_url n) = Inr r \<and> status_code r = 200)"
    by (auto simp: fetch_available_styles_def split: sum.splits if_splits)
next
  assume "fetch_layer_details net group_to_layers cat_layers = Inl e"
  then have "layer_entries net 0 group_to_layers cat_layers = Inl e"
    by (simp add: fetch_layer_details_def split: sum.splits)
  then show "\<exists>j n. fetch_default_style net j n = Inl e \<or> fetch_available_styles net j n = Inl e"
    by (rule layer_entries_abort)
qed

text \<open>
  A lookup whose request raises is not caught: the exception leaves the lookup, the record of
  the layer is not built, and the loop over the layers ends there.
\<close>

lemma style_lookup_raises:
  "net k (layer_url n) = Inl e \<Longrightarrow>
   fetch_default_style net k n = Inl e \<and> fetch_available_styles net k n = Inl e"
  by (simp add: fetch_default_style_def fetch_available_styles_def)

lemma layer_entry_raises:
  "net k (layer_url (rl_name l)) = Inl e \<or>
   (\<exists>ds. fetch_default_style net k (rl_name l) = Inr ds) \<and>
   net (k + 1) (layer_url (rl_name l)) = Inl e \<Longrightarrow>
   layer_entry net k group_to_layers l = Inl e \<and>
   layer_entries net k group_to_layers (l # ls) = Inl e"
  by (auto simp: layer_entry_def Let_def style_lookup_raises)

text \<open>
  \<^bold>\<open>C8\<close> does not hold of the code. A lookup that gets no reply at all (\<^verbatim>\<open>requests.get\<close>
  raises, lines 62 and 74) is a failed network call, and nothing catches the exception: the
  field is not set to the sentinel and the run ends. In the catalog of the example, with the
  second request of the run finding the server unreachable, the lookup of the available
  styles of \<open>L2\<close> raises, and so does the fetch of the layers: no record is returned. With
  the same request answered 404, the field is \<^verbatim>\<open>N/A\<close> and both layers get their record.
\<close>

theorem unreachable_server_ends_run:
  "ex_down_net 1 (layer_url ''L2'') = Inl ConnectionError \<and>
   fetch_default_style ex_down_net 0 ''L2'' = Inr (JVal (PStr ''s1'')) \<and>
   fetch_available_styles ex_down_net 1 ''L2'' = Inl ConnectionError \<and>
   layer_entry ex_down_net 0 Map.empty (ex_layers ! 0) = Inl ConnectionError \<and>
   fetch_layer_details ex_down_net Map.empty ex_layers = Inl ConnectionError \<and>
   ex_net 1 (layer_url ''L2'') = Inr \<lparr>status_code = 404, json_body = None\<rparr> \<and>
   fetch_available_styles ex_net 1 ''L2'' = Inr NA \<and>
   map_sum id (map (\<lambda>x. (l_name x, l_default_style x, l_available_styles x)))
     (fetch_layer_details ex_net Map.empty ex_layers)
   = Inr [(''L1'', JVal (PStr NA), NA), (''L2'', JVal (PStr ''s1''), NA)]"
proof -
  have n: "ex_down_net 1 (layer_url ''L2'') = Inl ConnectionError"
    "ex_net 1 (layer_url ''L2'') = Inr \<lparr>status_code = 404, json_body = None\<rparr>"
    "ex_net 2 (layer_url ''L1'') = Inr \<lparr>status_code = 500, json_body = None\<rparr>"
    "ex_net 3 (layer_url ''L1'') = Inr \<lparr>status_code = 200, json_body = Some (JDict [])\<rparr>"
    by (simp_all add: ex_down_net_def ex_net_def)
  have d: "fetch_default_style ex_net 0 ''L2'' = Inr (JVal (PStr ''s1''))"
    "fetch_default_style ex_down_net 0 ''L2'' = Inr (JVal (PStr ''s1''))"
    by (simp_all add: ex_down_net_def ex_net_def fetch_default_style_def response_json_def)
  have a: "fetch_available_styles ex_down_net 1 ''L2'' = Inl ConnectionError"
    using style_lookup_raises [of ex_down_net 1 "''L2''" ConnectionError] n(1) by simp
  have a1: "fetch_available_styles ex_net 1 ''L2'' = Inr NA"
    using fetch_available_styles_failed [of ex_net 1 "''L2''"] n(2) by simp
  have d2: "fetch_default_style ex_net 2 ''L1'' = Inr (JVal (PStr NA))"
    using fetch_default_style_failed [of ex_net 2 "''L1''"] n(3) by simp
  have a3: "fetch_available_styles ex_net 3 ''L1'' = Inr NA"
    using n(4) by (simp add: fetch_available_styles_def response_json_def)
  have e: "layer_entry ex_down_net 0 Map.empty (ex_layers ! 0) = Inl ConnectionError"
    using d(2) a by (simp add: layer_entry_def Let_def ex_layers_def)
  then have l: "fetch_layer_details ex_down_net Map.empty ex_layers = Inl ConnectionError"
    by (simp add: fetch_layer_details_def ex_layers_def)
  have r: "map_sum id (map (\<lambda>x. (l_name x, l_default_style x, l_available_styles x)))
     (fetch_layer_details ex_net Map.empty ex_layers)
   = Inr [(''L1'', JVal (PStr NA), NA), (''L2'', JVal (PStr ''s1''), NA)]"
    using d(1) a1 d2 a3
    by (simp add: fetch_layer_details_def ex_layers_def layer_entry_def Let_def layer_key_def
        numeral_2_eq_2 numeral_3_eq_3 less_eq_prod_def less_prod_def)
  from n(1,2) d(2) a e l a1 r show ?thesis by simp
qed

section \<open>Sheets: appends, dicts and the passes\<close>

lemma collect_map_Inr_id: "collect (map Inr ys) = Inr ys"
  by (induction ys) simp_all

lemma collect_Inr_D: "collect xs = Inr ys \<Longrightarrow> xs = map Inr ys"
  by (induction xs arbitrary: ys) (auto split: sum.splits)

lemma collect_Inr_iff: "collect xs = Inr ys \<longleftrightarrow> xs = map Inr ys"
  using collect_map_Inr_id collect_Inr_D by metis

lemma collect_map_Inr:
  "collect (map f xs) = Inr ys \<Longrightarrow>
   length ys = length xs \<and> (\<forall>i<length xs. f (xs ! i) = Inr (ys ! i))"
proof -
  assume "collect (map f xs) = Inr ys"
  then have m: "map f xs = map Inr ys" by (simp add: collect_Inr_iff)
  then have l: "length ys = length xs" by (metis length_map)
  have "f (xs ! i) = Inr (ys ! i)" if "i < length xs" for i
    using that m l by (metis nth_map)
  with l show ?thesis by blast
qed

lemma on_data_rows_Inr:
  assumes "on_data_rows f ws = Inr ws'"
  shows "length ws' = length ws \<and> take 1 ws' = take 1 ws \<and>
         (\<forall>i. 0 < i \<and> i < length ws \<longrightarrow> f (ws ! i) = Inr (ws' ! i))"
proof -
  from assms obtain rows where
    c: "collect (map f (drop 1 ws)) = Inr rows" and w: "ws' = take 1 ws @ rows"
    by (auto simp: on_data_rows_def data_rows_def split: sum.splits)
  from collect_map_Inr [OF c] have
    l: "length rows = length ws - 1" and
    n: "\<forall>i<length ws - 1. f (drop 1 ws ! i) = Inr (rows ! i)"
    by simp_all
  have 1: "length ws' = length ws" using w l by (cases ws) simp_all
  have 2: "take 1 ws' = take 1 ws" using w l by (cases ws) simp_all
  have 3: "f (ws ! i) = Inr (ws' ! i)" if "0 < i \<and> i < length ws" for i
  proof -
    from that obtain j where j: "i = Suc j" by (cases i) auto
    with that have "j < length ws - 1" by simp
    with n have "f (drop 1 ws ! j) = Inr (rows ! j)" by blast
    moreover from that j have "drop 1 ws ! j = ws ! i" by simp
    moreover from that j w have "ws' ! i = rows ! j" by (cases ws) (simp_all add: nth_append)
    ultimately show ?thesis by simp
  qed
  from 1 2 3 show ?thesis by blast
qed

lemma map_update_same: "f y = f (xs ! i) \<Longrightarrow> map f (xs[i := y]) = map f xs"
  by (cases "i < length xs") (simp_all add: map_update list_update_same_conv list_update_beyond)

lemma cell_value_set_hyperlink [simp]: "cell_value (set_hyperlink t c) = cell_value c"
  by (simp add: set_hyperlink_def)

lemma cell_value_link_cell [simp]: "cell_value (link_cell m p c) = cell_value c"
  by (simp add: link_cell_def split: option.split)

lemma link_row_values:
  "link_row L row = Inr row' \<Longrightarrow> map cell_value row' = map cell_value row"
  by (auto simp: link_row_def map_update_same split: if_splits)

lemma add_layer_group_hyperlinks_row_values:
  "add_layer_group_hyperlinks_row m row = Inr row' \<Longrightarrow> map cell_value row' = map cell_value row"
  by (auto simp: add_layer_group_hyperlinks_row_def map_update_same
      split: if_splits pyval.splits option.splits)

lemma on_data_rows_values:
  assumes "on_data_rows f ws = Inr ws'"
    and "\<And>row row'. f row = Inr row' \<Longrightarrow> map cell_value row' = map cell_value row"
  shows "sheet_values ws' = sheet_values ws"
proof -
  from on_data_rows_Inr [OF assms(1)] have
    l: "length ws' = length ws" and t: "take 1 ws' = take 1 ws" and
    n: "\<forall>i. 0 < i \<and> i < length ws \<longrightarrow> f (ws ! i) = Inr (ws' ! i)"
    by blast+
  have "map cell_value (ws' ! i) = map cell_value (ws ! i)" if "i < length ws" for i
  proof (cases i)
    case 0
    with that t l show ?thesis by (cases ws; cases ws') simp_all
  next
    case (Suc j)
    with that n have "f (ws ! i) = Inr (ws' ! i)" by simp
    then show ?thesis by (rule assms(2))
  qed
  with l show ?thesis
    by (simp add: sheet_values_def list_eq_iff_nth_eq)
qed

lemma ws_cell_update_values:
  "0 < r \<Longrightarrow> r \<le> length ws \<Longrightarrow> 0 < c \<Longrightarrow> c \<le> length (ws ! (r - 1)) \<Longrightarrow>
   cell_value (f (ws ! (r - 1) ! (c - 1))) = cell_value (ws ! (r - 1) ! (c - 1)) \<Longrightarrow>
   sheet_values (ws_cell_update r c f ws) = sheet_values ws"
  by (simp add: ws_cell_update_def sheet_values_def Let_def map_update_same)

lemma to_cell_Inr: "to_cell j = Inr c \<Longrightarrow> c = new_cell (scalar j)"
  by (cases j) simp_all

lemma collect_to_cell:
  "collect (map to_cell content) = Inr cells \<Longrightarrow> cells = map (new_cell \<circ> scalar) content"
proof (induction content arbitrary: cells)
  case Nil
  then show ?case by simp
next
  case (Cons j js)
  then show ?case by (auto split: sum.splits dest: to_cell_Inr)
qed

lemma ws_append_all_Inr:
  "ws_append_all ws contents = Inr ws' \<Longrightarrow>
   ws' = ws @ map (map (new_cell \<circ> scalar)) contents"
proof (induction contents arbitrary: ws)
  case Nil
  then show ?case by simp
next
  case (Cons c cs)
  from Cons.prems obtain w1 where
    a: "ws_append ws c = Inr w1" and r: "ws_append_all w1 cs = Inr ws'"
    by (auto split: sum.splits)
  from a have "w1 = ws @ [map (new_cell \<circ> scalar) c]"
    by (auto simp: ws_append_def split: sum.splits dest: collect_to_cell)
  with Cons.IH [OF r] show ?case by simp
qed

lemma populate_member_row:
  "\<exists>row'. populate_child_title_row m (map (new_cell \<circ> scalar) (member_row grp layers name)) = Inr row'
     \<and> map cell_value row' = titled_row m grp layers name"
  by (simp add: populate_child_title_row_def member_row_def titled_row_def new_cell_def
      split: option.split)

lemma sheet_values_eq_D:
  "sheet_values a = sheet_values b \<Longrightarrow>
   length a = length b \<and> (\<forall>i<length a. length (a ! i) = length (b ! i))"
proof -
  assume e: "sheet_values a = sheet_values b"
  then have l: "length a = length b"
    unfolding sheet_values_def by (rule map_eq_imp_length_eq)
  have "length (a ! i) = length (b ! i)" if "i < length a" for i
  proof -
    from e that l have "map cell_value (a ! i) = map cell_value (b ! i)"
      unfolding sheet_values_def by (metis nth_map)
    then show ?thesis by (rule map_eq_imp_length_eq)
  qed
  with l show ?thesis by blast
qed

lemma header_link_values:
  assumes "ws \<noteq> []" "0 < c" "c \<le> length (ws ! 0)"
  shows "sheet_values (ws_cell_update 1 c (set_hyperlink t) ws) = sheet_values ws"
  using assms by (intro ws_cell_update_values) (simp_all add: Suc_le_eq)

lemma header_link_shape:
  assumes "ws \<noteq> []" "0 < c" "c \<le> length (ws ! 0)"
  shows "ws_cell_update 1 c (set_hyperlink t) ws \<noteq> [] \<and>
         length (ws_cell_update 1 c (set_hyperlink t) ws ! 0) = length (ws ! 0)"
  using sheet_values_eq_D [OF header_link_values [OF assms, of t]] assms(1) by auto

lemma add_header_hyperlinks_values:
  assumes "ws \<noteq> []" "8 \<le> length (ws ! 0)"
  shows "sheet_values (add_header_hyperlinks ws) = sheet_values ws"
proof -
  let ?w1 = "ws_cell_update 1 1 (set_hyperlink ''#'Workspaces'!A1'') ws"
  let ?w2 = "ws_cell_update 1 2 (set_hyperlink ''#'Stores'!A1'') ?w1"
  let ?w3 = "ws_cell_update 1 3 (set_hyperlink ''#'Layer Groups'!A1'') ?w2"
  let ?w4 = "ws_cell_update 1 6 (set_hyperlink ''#'Layers'!A1'') ?w3"
  have s1: "?w1 \<noteq> [] \<and> length (?w1 ! 0) = length (ws ! 0)"
    using assms by (intro header_link_shape) simp_all
  have s2: "?w2 \<noteq> [] \<and> length (?w2 ! 0) = length (ws ! 0)"
    using assms s1 header_link_shape [of ?w1 2] by simp
  have s3: "?w3 \<noteq> [] \<and> length (?w3 ! 0) = length (ws ! 0)"
    using assms s2 header_link_shape [of ?w2 3] by simp
  have s4: "?w4 \<noteq> [] \<and> length (?w4 ! 0) = length (ws ! 0)"
    using assms s3 header_link_shape [of ?w3 6] by simp
  have "sheet_values (add_header_hyperlinks ws) = sheet_values ?w4"
    unfolding add_header_hyperlinks_def using assms s4 by (intro header_link_values) simp_all
  also have "\<dots> = sheet_values ?w3"
    using assms s3 by (intro header_link_values) simp_all
  also have "\<dots> = sheet_values ?w2"
    using assms s2 by (intro header_link_values) simp_all
  also have "\<dots> = sheet_values ?w1"
    using assms s1 by (intro header_link_values) simp_all
  also have "\<dots> = sheet_values ws"
    using assms by (intro header_link_values) simp_all
  finally show ?thesis .
qed

lemma link_columns_with_sheets_values:
  "link_columns_with_sheets ws wb = Inr ws' \<Longrightarrow> sheet_values ws' = sheet_values ws"
  by (auto simp: link_columns_with_sheets_def split: sum.splits
      intro: on_data_rows_values link_row_values)

lemma add_layer_group_hyperlinks_values:
  "add_layer_group_hyperlinks wb ws = Inr ws' \<Longrightarrow> sheet_values ws' = sheet_values ws"
  by (auto simp: add_layer_group_hyperlinks_def split: sum.splits
      intro: on_data_rows_values add_layer_group_hyperlinks_row_values)

lemma populate_rows:
  assumes "on_data_rows (populate_child_title_row m)
             (map (map (new_cell \<circ> scalar)) (hdr # map (member_row grp layers) names)) = Inr ws1"
  shows "sheet_values ws1 = map scalar hdr # map (titled_row m grp layers) names"
proof -
  let ?ws0 = "map (map (new_cell \<circ> scalar)) (hdr # map (member_row grp layers) names)"
  from on_data_rows_Inr [OF assms] have
    l: "length ws1 = Suc (length names)" and t: "take 1 ws1 = take 1 ?ws0" and
    n: "\<forall>i. 0 < i \<and> i < length ?ws0 \<longrightarrow> populate_child_title_row m (?ws0 ! i) = Inr (ws1 ! i)"
    by simp_all
  have h: "map cell_value (ws1 ! 0) = map scalar hdr"
  proof -
    from t l have "ws1 ! 0 = map (new_cell \<circ> scalar) hdr" by (cases ws1) simp_all
    then show ?thesis by (simp add: new_cell_def comp_def)
  qed
  have r: "map cell_value (ws1 ! Suc j) = titled_row m grp layers (names ! j)"
    if "j < length names" for j
  proof -
    from that n [rule_format, of "Suc j"] have
      "populate_child_title_row m (map (new_cell \<circ> scalar) (member_row grp layers (names ! j)))
       = Inr (ws1 ! Suc j)" by simp
    with populate_member_row [of m grp layers "names ! j"] show ?thesis by auto
  qed
  show ?thesis
  proof (rule nth_equalityI)
    show "length (sheet_values ws1) = length (map scalar hdr # map (titled_row m grp layers) names)"
      using l by (simp add: sheet_values_def)
  next
    fix i assume "i < length (sheet_values ws1)"
    with l have i: "i < Suc (length names)" by (simp add: sheet_values_def)
    show "sheet_values ws1 ! i = (map scalar hdr # map (titled_row m grp layers) names) ! i"
    proof (cases i)
      case 0
      with h l show ?thesis by (simp add: sheet_values_def)
    next
      case (Suc j)
      with i r [of j] l show ?thesis by (simp add: sheet_values_def)
    qed
  qed
qed

lemma group_worksheet_values:
  assumes "group_worksheet wb grp layers = Inr ws"
  shows "\<exists>m. sheet_dict wb ''Layer Groups'' 2 0 (\<lambda>idx row. cell_value (row ! 1)) = Inr m \<and>
             sheet_values ws = map PStr group_header
                               # map (titled_row m grp layers) (split_comma (g_layers grp))"
proof -
  let ?names = "split_comma (g_layers grp)"
  let ?hdr = "header_row group_header"
  from assms obtain ws0 ws1 ws2 where
    a: "ws_append_all [] (?hdr # map (member_row grp layers) ?names) = Inr ws0" and
    p: "populate_child_title wb ws0 = Inr ws1" and
    k: "link_columns_with_sheets (add_header_hyperlinks ws1) wb = Inr ws2" and
    g: "add_layer_group_hyperlinks wb ws2 = Inr ws"
    by (auto simp: group_worksheet_def group_header_def split: sum.splits)
  from ws_append_all_Inr [OF a] have
    ws0: "ws0 = map (map (new_cell \<circ> scalar)) (?hdr # map (member_row grp layers) ?names)"
    by simp
  from p obtain m where
    m: "sheet_dict wb ''Layer Groups'' 2 0 (\<lambda>idx row. cell_value (row ! 1)) = Inr m" and
    o: "on_data_rows (populate_child_title_row m) ws0 = Inr ws1"
    by (auto simp: populate_child_title_def split: sum.splits)
  from populate_rows [OF o [unfolded ws0]] have
    v1: "sheet_values ws1 = map PStr group_header # map (titled_row m grp layers) ?names"
    by (simp add: header_row_def comp_def)
  then have "ws1 \<noteq> []" "8 \<le> length (ws1 ! 0)"
    using sheet_values_eq_D [of ws1 "map (map new_cell) (sheet_values ws1)"]
    by (auto simp: sheet_values_def group_header_def dest: map_eq_imp_length_eq)
  then have "sheet_values (add_header_hyperlinks ws1) = sheet_values ws1"
    by (rule add_header_hyperlinks_values)
  with link_columns_with_sheets_values [OF k] add_layer_group_hyperlinks_values [OF g] v1 m
  show ?thesis by auto
qed

lemma py_dict_map_of: "py_dict kvs = map_of (rev kvs)"
proof -
  have "foldl (\<lambda>m (k, v). m(k \<mapsto> v)) m kvs = m ++ map_of (rev kvs)" for m :: "'a \<rightharpoonup> 'b"
  proof (induction kvs arbitrary: m)
    case Nil
    then show ?case by simp
  next
    case (Cons kv kvs)
    obtain k v where kv: "kv = (k, v)" by (cases kv)
    have "foldl (\<lambda>m (k, v). m(k \<mapsto> v)) m (kv # kvs) = m(k \<mapsto> v) ++ map_of (rev kvs)"
      unfolding kv by (simp only: foldl_Cons prod.case Cons.IH)
    also have "m(k \<mapsto> v) = m ++ [k \<mapsto> v]" by simp
    also have "(m ++ [k \<mapsto> v]) ++ map_of (rev kvs) = m ++ map_of (rev (kv # kvs))"
      unfolding kv by (simp only: rev.simps map_of_append map_add_assoc map_of.simps fst_conv snd_conv)
    finally show ?case .
  qed
  from this [of Map.empty] show ?thesis by (simp add: py_dict_def)
qed

lemma collect_guarded_D:
  "collect (map (\<lambda>x. if P x then Inr (g x) else Inl e) xs) = Inr ys \<Longrightarrow>
   (\<forall>x\<in>set xs. P x) \<and> ys = map g xs"
  by (induction xs arbitrary: ys) (auto split: sum.splits if_splits)

lemma collect_guarded_I:
  "\<forall>x\<in>set xs. P x \<Longrightarrow>
   collect (map (\<lambda>x. if P x then Inr (g x) else Inl e) xs) = Inr (map g xs)"
  by (induction xs) simp_all

lemma collect_guarded:
  "collect (map (\<lambda>x. if P x then Inr (g x) else Inl e) xs) = Inr ys \<longleftrightarrow>
   (\<forall>x\<in>set xs. P x) \<and> ys = map g xs"
  using collect_guarded_D [of P g e xs ys] collect_guarded_I [of xs P g e] by blast

lemma column_dict_iff:
  "column_dict width col entry ws = Inr m \<longleftrightarrow>
   (\<forall>row\<in>set (data_rows ws). width \<le> length row) \<and>
   m = map_of (rev (column_items col entry ws))"
proof -
  let ?P = "\<lambda>x :: nat \<times> row. width \<le> length (snd x)"
  let ?g = "\<lambda>x :: nat \<times> row. (cell_value (snd x ! col), entry (fst x) (snd x))"
  have f: "(\<lambda>(idx, row). if width \<le> length row then Inr (cell_value (row ! col), entry idx row)
                         else Inl IndexError) = (\<lambda>x. if ?P x then Inr (?g x) else Inl IndexError)"
    by (rule ext) (simp add: case_prod_beta)
  have i: "column_items col entry ws = map ?g (enumerate 0 (data_rows ws))"
    by (simp add: column_items_def case_prod_beta)
  have p: "(\<forall>x\<in>set (enumerate 0 (data_rows ws)). ?P x) \<longleftrightarrow>
           (\<forall>row\<in>set (data_rows ws). width \<le> length row)"
  proof -
    have "snd ` set (enumerate 0 (data_rows ws)) = set (data_rows ws)"
      by (metis list.set_map map_snd_enumerate)
    then show ?thesis by (metis (no_types, lifting) ball_imageD imageI image_iff)
  qed
  show ?thesis
  proof
    assume "column_dict width col entry ws = Inr m"
    then obtain items where
      c: "collect (map (\<lambda>x. if ?P x then Inr (?g x) else Inl IndexError)
                     (enumerate 0 (data_rows ws))) = Inr items" and
      m: "m = py_dict items"
      unfolding column_dict_def f by (auto split: sum.splits)
    from collect_guarded_D [OF c] p m i
    show "(\<forall>row\<in>set (data_rows ws). width \<le> length row) \<and>
          m = map_of (rev (column_items col entry ws))"
      by (simp add: py_dict_map_of)
  next
    assume a: "(\<forall>row\<in>set (data_rows ws). width \<le> length row) \<and>
               m = map_of (rev (column_items col entry ws))"
    with p have "\<forall>x\<in>set (enumerate 0 (data_rows ws)). ?P x" by blast
    from collect_guarded_I [OF this, of ?g IndexError] a i
    show "column_dict width col entry ws = Inr m"
      unfolding column_dict_def f by (simp add: py_dict_map_of)
  qed
qed

lemma sheet_dict_wide:
  "wide_sheet wb title width \<Longrightarrow>
   \<exists>ws. map_of wb title = Some ws \<and>
        sheet_dict wb title width col entry = Inr (map_of (rev (column_items col entry ws)))"
  by (auto simp: wide_sheet_def sheet_dict_def wb_get_def list_all_iff column_dict_iff
      split: option.splits)

lemma make_lookups_ready: "wb_ready wb \<Longrightarrow> \<exists>L. make_lookups wb = Inr L"
proof -
  assume r: "wb_ready wb"
  from r sheet_dict_wide [of wb "''Workspaces''" 1 0 "\<lambda>idx row. cell_address ''Workspaces!A'' idx"]
  obtain wl where 1: "sheet_dict wb ''Workspaces'' 1 0 (\<lambda>idx row. cell_address ''Workspaces!A'' idx) = Inr wl"
    by (auto simp: wb_ready_def)
  from r sheet_dict_wide [of wb "''Stores''" 2 1 "\<lambda>idx row. cell_address ''Stores!B'' idx"]
  obtain sl where 2: "sheet_dict wb ''Stores'' 2 1 (\<lambda>idx row. cell_address ''Stores!B'' idx) = Inr sl"
    by (auto simp: wb_ready_def)
  from r have "wide_sheet wb ''Layer Groups'' 1"
    by (auto simp: wb_ready_def wide_sheet_def list_all_iff split: option.splits)
  from sheet_dict_wide [OF this, of 0 "\<lambda>idx row. cell_address ''A'' idx"]
  obtain gl where 3: "sheet_dict wb ''Layer Groups'' 1 0 (\<lambda>idx row. cell_address ''A'' idx) = Inr gl"
    by auto
  from r sheet_dict_wide [of wb "''Layers''" 4 3 "\<lambda>idx row. cell_address ''Layers!D'' idx"]
  obtain ll where 4: "sheet_dict wb ''Layers'' 4 3 (\<lambda>idx row. cell_address ''Layers!D'' idx) = Inr ll"
    by (auto simp: wb_ready_def)
  from r sheet_dict_wide [of wb "''Styles''" 1 0 "\<lambda>idx row. cell_address ''Styles!A'' idx"]
  obtain stl where 5: "sheet_dict wb ''Styles'' 1 0 (\<lambda>idx row. cell_address ''Styles!A'' idx) = Inr stl"
    by (auto simp: wb_ready_def)
  from 1 2 3 4 5 show ?thesis by (simp add: make_lookups_def)
qed

lemma collect_all_Inr:
  "(\<And>x. x \<in> set xs \<Longrightarrow> f x = Inr (g x)) \<Longrightarrow> collect (map f xs) = Inr (map g xs)"
  by (induction xs) simp_all

lemma collect_total:
  "\<forall>x\<in>set xs. \<exists>y. f x = Inr y \<Longrightarrow> \<exists>ys. collect (map f xs) = Inr ys"
  by (induction xs) auto

lemma on_data_rows_total:
  "\<forall>row\<in>set (data_rows ws). \<exists>row'. f row = Inr row' \<Longrightarrow> \<exists>ws'. on_data_rows f ws = Inr ws'"
  using collect_total [of "data_rows ws" f] by (auto simp: on_data_rows_def)

lemma ws_append_all_scalars:
  "\<forall>c\<in>set contents. \<forall>j\<in>set c. \<exists>v. j = JVal v \<Longrightarrow>
   ws_append_all ws contents = Inr (ws @ map (map (new_cell \<circ> scalar)) contents)"
proof (induction contents arbitrary: ws)
  case Nil
  then show ?case by simp
next
  case (Cons c cs)
  have "collect (map to_cell c) = Inr (map (new_cell \<circ> scalar) c)"
  proof (rule collect_all_Inr)
    fix j assume "j \<in> set c"
    with Cons.prems obtain v where "j = JVal v" by auto
    then show "to_cell j = Inr ((new_cell \<circ> scalar) j)" by simp
  qed
  then have "ws_append ws c = Inr (ws @ [map (new_cell \<circ> scalar) c])"
    by (simp add: ws_append_def)
  moreover from Cons.prems have "\<forall>c\<in>set cs. \<forall>j\<in>set c. \<exists>v. j = JVal v" by simp
  ultimately show ?case using Cons.IH [of "ws @ [map (new_cell \<circ> scalar) c]"] by simp
qed

lemma fold_links_values:
  "\<forall>p\<in>set ps. 0 < fst p \<and> fst p \<le> length ws \<and> 0 < length (ws ! (fst p - 1)) \<Longrightarrow>
   sheet_values (foldl (\<lambda>ws (idx, name). ws_cell_update idx 1 (set_hyperlink (t name)) ws) ws ps)
   = sheet_values ws"
proof (induction ps arbitrary: ws)
  case Nil
  then show ?case by simp
next
  case (Cons p ps)
  obtain idx name where p: "p = (idx, name)" by (cases p)
  let ?w = "ws_cell_update idx 1 (set_hyperlink (t name)) ws"
  from Cons.prems p have i: "0 < idx" "idx \<le> length ws" "0 < length (ws ! (idx - 1))" by simp_all
  then have v: "sheet_values ?w = sheet_values ws"
    by (intro ws_cell_update_values) (simp_all add: Suc_le_eq)
  from sheet_values_eq_D [OF v] have
    l: "length ?w = length ws" and r: "\<forall>i<length ws. length (?w ! i) = length (ws ! i)"
    by simp_all
  have "\<forall>q\<in>set ps. 0 < fst q \<and> fst q \<le> length ?w \<and> 0 < length (?w ! (fst q - 1))"
  proof
    fix q assume "q \<in> set ps"
    with Cons.prems have q: "0 < fst q" "fst q \<le> length ws" "0 < length (ws ! (fst q - 1))"
      by simp_all
    then have "fst q - 1 < length ws" by simp
    with r have "length (?w ! (fst q - 1)) = length (ws ! (fst q - 1))" by blast
    with q l show "0 < fst q \<and> fst q \<le> length ?w \<and> 0 < length (?w ! (fst q - 1))" by simp
  qed
  from Cons.IH [OF this] v p show ?case by simp
qed

lemma layer_groups_sheet_values:
  "\<exists>lg. layer_groups_sheet groups = Inr lg \<and>
        sheet_values lg =
          map PStr [''Group Name'', ''Title'', ''CRS'', ''Bounds'', ''Mode'', ''Layers'']
          # map group_values groups"
proof -
  let ?hdr = "header_row [''Group Name'', ''Title'', ''CRS'', ''Bounds'', ''Mode'', ''Layers'']"
  let ?ws = "map (map (new_cell \<circ> scalar)) (?hdr # map group_row groups)"
  have a: "ws_append_all [] (?hdr # map group_row groups) = Inr ([] @ ?ws)"
    by (rule ws_append_all_scalars) (auto simp: header_row_def group_row_def)
  have v0: "sheet_values ?ws =
          map PStr [''Group Name'', ''Title'', ''CRS'', ''Bounds'', ''Mode'', ''Layers'']
          # map group_values groups"
    by (simp add: sheet_values_def header_row_def group_row_def group_values_def new_cell_def
        comp_def)
  let ?ps = "enumerate 2 (dict_keys (map g_group_name groups))"
  let ?t = "\<lambda>group_name. ''#'' @ [CHR 0x27] @ group_sheet_title group_name @ [CHR 0x27] @ ''!A1''"
  let ?w = "foldl (\<lambda>ws (idx, name). ws_cell_update idx 1 (set_hyperlink (?t name)) ws) ?ws ?ps"
  have k: "length (dict_keys (map g_group_name groups)) \<le> length groups"
    using length_remdups_leq [of "rev (map g_group_name groups)"] by (simp add: dict_keys_def)
  have "\<forall>p\<in>set ?ps. 0 < fst p \<and> fst p \<le> length ?ws \<and> 0 < length (?ws ! (fst p - 1))"
  proof
    fix p assume "p \<in> set ?ps"
    then have b: "2 \<le> fst p" "fst p < length (dict_keys (map g_group_name groups)) + 2"
      by (auto simp: in_set_enumerate_eq)
    with k have c: "fst p - 2 < length groups" by simp
    from b have "?ws ! (fst p - 1) = map (new_cell \<circ> scalar) (group_row (groups ! (fst p - 2)))"
      using c by (cases "fst p") (auto simp: nth_Cons' numeral_2_eq_2)
    then have "length (?ws ! (fst p - 1)) = 6" by (simp add: group_row_def)
    with b c show "0 < fst p \<and> fst p \<le> length ?ws \<and> 0 < length (?ws ! (fst p - 1))" by simp
  qed
  from fold_links_values [OF this] have v1: "sheet_values ?w = sheet_values ?ws" .
  from sheet_values_eq_D [OF v1] have "?w \<noteq> []" "length (?w ! 0) = 6"
    by (auto simp: header_row_def)
  then have "sheet_values (add_header_hyperlinks_layer_groups ?w) = sheet_values ?w"
    unfolding add_header_hyperlinks_layer_groups_def by (intro header_link_values) simp_all
  with v1 v0 a show ?thesis by (simp add: layer_groups_sheet_def)
qed


lemma column_items_values:
  assumes "sheet_values ws = hdr # map vals xs"
    and "\<And>x. x \<in> set xs \<Longrightarrow> col < length (vals x)"
  shows "column_items col (\<lambda>idx row. e (map cell_value row)) ws
         = map (\<lambda>x. (vals x ! col, e (vals x))) xs"
proof -
  from assms(1) have d: "map (map cell_value) (data_rows ws) = map vals xs"
    by (simp add: sheet_values_def data_rows_def drop_map [symmetric])
  then have l: "length (data_rows ws) = length xs" by (rule map_eq_imp_length_eq)
  show ?thesis
  proof (rule nth_equalityI)
    show "length (column_items col (\<lambda>idx row. e (map cell_value row)) ws)
          = length (map (\<lambda>x. (vals x ! col, e (vals x))) xs)"
      using l by (simp add: column_items_def)
  next
    fix i assume "i < length (column_items col (\<lambda>idx row. e (map cell_value row)) ws)"
    then have i: "i < length xs" using l by (simp add: column_items_def)
    with d l have r: "map cell_value (data_rows ws ! i) = vals (xs ! i)"
      by (metis nth_map)
    from i assms(2) have "col < length (vals (xs ! i))" by simp
    with r have "col < length (data_rows ws ! i)" by (metis length_map)
    then have "cell_value (data_rows ws ! i ! col) = vals (xs ! i) ! col"
      using r by (metis nth_map)
    with i l r show "column_items col (\<lambda>idx row. e (map cell_value row)) ws ! i
          = map (\<lambda>x. (vals x ! col, e (vals x))) xs ! i"
      by (simp add: column_items_def nth_enumerate_eq)
  qed
qed



lemma titled_row_shape:
  assumes "map cell_value row = titled_row m grp layers name"
  shows "length row = 8 \<and> (\<exists>s. cell_value (row ! 5) = PStr s)"
proof -
  have l: "length (titled_row m grp layers name) = 8"
    by (simp add: titled_row_def split: option.split)
  with assms have 1: "length row = 8" by (metis length_map)
  have "\<exists>s. titled_row m grp layers name ! 5 = PStr s"
    by (simp add: titled_row_def split: option.split)
  moreover from 1 have "map cell_value row ! 5 = cell_value (row ! 5)" by simp
  ultimately show ?thesis using 1 assms by simp
qed

lemma member_row_storable:
  assumes "\<forall>layer\<in>set layers. \<exists>v. l_default_style layer = JVal v"
  shows "\<forall>j\<in>set (member_row grp layers name). \<exists>v. j = JVal v"
proof (cases "find (\<lambda>layer. l_name layer = name) layers")
  case None
  then show ?thesis by (simp add: member_row_def)
next
  case (Some l)
  then have "l \<in> set layers" by (auto simp: find_Some_iff)
  with assms obtain v where "l_default_style l = JVal v" by blast
  with Some show ?thesis by (simp add: member_row_def)
qed

lemma data_rows_shape:
  assumes "sheet_values ws = hdr # map (titled_row m grp layers) names"
  shows "\<forall>row\<in>set (data_rows ws). length row = 8 \<and> (\<exists>s. cell_value (row ! 5) = PStr s)"
proof
  fix row assume "row \<in> set (data_rows ws)"
  then have "map cell_value row \<in> set (map (map cell_value) (data_rows ws))" by simp
  also from assms have "map (map cell_value) (data_rows ws) = map (titled_row m grp layers) names"
    by (simp add: sheet_values_def data_rows_def drop_map [symmetric])
  finally obtain name where "map cell_value row = titled_row m grp layers name" by auto
  then show "length row = 8 \<and> (\<exists>s. cell_value (row ! 5) = PStr s)" by (rule titled_row_shape)
qed

lemma group_worksheet_total:
  assumes r: "wb_ready wb" and s: "\<forall>layer\<in>set layers. \<exists>v. l_default_style layer = JVal v"
  shows "\<exists>ws. group_worksheet wb grp layers = Inr ws"
proof -
  let ?names = "split_comma (g_layers grp)"
  let ?hdr = "header_row group_header"
  let ?ws0 = "map (map (new_cell \<circ> scalar)) (?hdr # map (member_row grp layers) ?names)"
  have a: "ws_append_all [] (?hdr # map (member_row grp layers) ?names) = Inr ([] @ ?ws0)"
    using member_row_storable [OF s]
    by (intro ws_append_all_scalars) (auto simp: header_row_def)
  from r sheet_dict_wide [of wb "''Layer Groups''" 2 0 "\<lambda>idx row. cell_value (row ! 1)"]
  obtain m where
    m: "sheet_dict wb ''Layer Groups'' 2 0 (\<lambda>idx row. cell_value (row ! 1)) = Inr m"
    by (auto simp: wb_ready_def)
  have "\<forall>row\<in>set (data_rows ?ws0). \<exists>row'. populate_child_title_row m row = Inr row'"
    using populate_member_row [of m grp layers] by (auto simp: data_rows_def)
  from on_data_rows_total [OF this] obtain ws1 where
    o: "on_data_rows (populate_child_title_row m) ?ws0 = Inr ws1" by blast
  from populate_rows [OF o] have
    v1: "sheet_values ws1 = map scalar ?hdr # map (titled_row m grp layers) ?names" .
  then have h: "ws1 \<noteq> []" "8 \<le> length (ws1 ! 0)"
    using sheet_values_eq_D [of ws1 "map (map new_cell) (sheet_values ws1)"]
    by (auto simp: sheet_values_def group_header_def header_row_def dest: map_eq_imp_length_eq)
  let ?ws1 = "add_header_hyperlinks ws1"
  from add_header_hyperlinks_values [OF h] v1 have
    v1': "sheet_values ?ws1 = map scalar ?hdr # map (titled_row m grp layers) ?names" by simp
  from make_lookups_ready [OF r] obtain L where L: "make_lookups wb = Inr L" by blast
  have "\<forall>row\<in>set (data_rows ?ws1). \<exists>row'. link_row L row = Inr row'"
    using data_rows_shape [OF v1'] by (auto simp: link_row_def)
  from on_data_rows_total [OF this] L obtain ws2 where
    k: "link_columns_with_sheets ?ws1 wb = Inr ws2"
    by (auto simp: link_columns_with_sheets_def)
  from link_columns_with_sheets_values [OF k] v1' have
    v2: "sheet_values ws2 = map scalar ?hdr # map (titled_row m grp layers) ?names" by simp
  from r have "wide_sheet wb ''Layer Groups'' 1"
    by (auto simp: wb_ready_def wide_sheet_def list_all_iff split: option.splits)
  from sheet_dict_wide [OF this, of 0 "\<lambda>idx row. cell_address ''A'' idx"]
  obtain gm where
    gm: "sheet_dict wb ''Layer Groups'' 1 0 (\<lambda>idx row. cell_address ''A'' idx) = Inr gm" by auto
  have "\<forall>row\<in>set (data_rows ws2). \<exists>row'. add_layer_group_hyperlinks_row gm row = Inr row'"
  proof
    fix row assume "row \<in> set (data_rows ws2)"
    with data_rows_shape [OF v2] obtain s where "length row = 8" "cell_value (row ! 5) = PStr s"
      by blast
    then show "\<exists>row'. add_layer_group_hyperlinks_row gm row = Inr row'"
      by (simp add: add_layer_group_hyperlinks_row_def split: option.split)
  qed
  from on_data_rows_total [OF this] gm obtain ws3 where
    g: "add_layer_group_hyperlinks wb ws2 = Inr ws3"
    by (auto simp: add_layer_group_hyperlinks_def)
  from a m o k g show ?thesis
    by (simp add: group_worksheet_def populate_child_title_def group_header_def)
qed

lemma group_worksheet_rows:
  assumes "group_worksheet wb grp layers = Inr ws"
  shows "\<exists>m. sheet_dict wb ''Layer Groups'' 2 0 (\<lambda>idx row. cell_value (row ! 1)) = Inr m \<and>
             length ws = Suc (length (split_comma (g_layers grp))) \<and>
             (\<forall>i<length (split_comma (g_layers grp)).
                length (ws ! Suc i) = 8 \<and>
                map cell_value (ws ! Suc i) = titled_row m grp layers (split_comma (g_layers grp) ! i))"
proof -
  let ?names = "split_comma (g_layers grp)"
  from group_worksheet_values [OF assms] obtain m where
    m: "sheet_dict wb ''Layer Groups'' 2 0 (\<lambda>idx row. cell_value (row ! 1)) = Inr m" and
    v: "sheet_values ws = map PStr group_header # map (titled_row m grp layers) ?names"
    by blast
  from v have l: "length ws = Suc (length ?names)"
    by (auto simp: sheet_values_def dest: map_eq_imp_length_eq)
  have "length (ws ! Suc i) = 8 \<and> map cell_value (ws ! Suc i) = titled_row m grp layers (?names ! i)"
    if "i < length ?names" for i
  proof -
    from that l have "sheet_values ws ! Suc i = map cell_value (ws ! Suc i)"
      by (simp add: sheet_values_def)
    with v that have r: "map cell_value (ws ! Suc i) = titled_row m grp layers (?names ! i)"
      by simp
    from titled_row_shape [OF r] r show ?thesis by simp
  qed
  with m l show ?thesis by blast
qed

lemma titled_row_type:
  "titled_row m grp layers name ! 4 =
     PStr (if \<exists>layer\<in>set layers. l_name layer = name then ''Layer'' else ''Layer Group'') \<and>
   titled_row m grp layers name ! 5 = PStr name"
proof (cases "find (\<lambda>layer. l_name layer = name) layers")
  case None
  then have "\<not> (\<exists>layer\<in>set layers. l_name layer = name)" by (auto simp: find_None_iff)
  with None show ?thesis by (simp add: titled_row_def)
next
  case (Some l)
  then have "l \<in> set layers \<and> l_name l = name" by (auto simp: find_Some_iff)
  with Some show ?thesis by (auto simp: titled_row_def)
qed

lemma link_row_cells:
  assumes "link_row L row = Inr row'"
  shows "length row' = length row \<and>
         (\<forall>c<length row.
            row' ! c = (case column_lookup L c of
                          Some (m, p) \<Rightarrow> link_cell m p (row ! c)
                        | None \<Rightarrow> row ! c))"
proof -
  from assms have 8: "8 \<le> length row" and
    r: "row' = row[0 := link_cell (workspace_lookup L) ''#'' (row ! 0),
                    1 := link_cell (store_lookup L) ''#'' (row ! 1),
                    2 := link_cell (group_lookup L) ''#'Layer Groups'!'' (row ! 2),
                    5 := link_cell (layer_lookup L) ''#'' (row ! 5),
                    7 := link_cell (style_lookup L) ''#'' (row ! 7)]"
    by (auto simp: link_row_def split: if_splits)
  have "row' ! c = (case column_lookup L c of
                          Some (m, p) \<Rightarrow> link_cell m p (row ! c)
                        | None \<Rightarrow> row ! c)" if "c < length row" for c
    using that 8 unfolding r column_lookup_def by (auto simp: nth_list_update)
  with r show ?thesis by simp
qed

lemma add_layer_group_hyperlinks_row_cells:
  assumes "add_layer_group_hyperlinks_row gm row = Inr row'"
  shows "length row' = length row \<and>
         (\<forall>c<length row.
            row' ! c =
              (if c = 5 \<and> cell_value (row ! 4) = PStr ''Layer Group'' then
                 (case cell_value (row ! 5) of
                    PStr s \<Rightarrow>
                      (case gm (PStr (replace_cgs s)) of
                         Some a \<Rightarrow> set_hyperlink (''#'Layer Groups'!'' @ a) (row ! 5)
                       | None \<Rightarrow> row ! 5)
                  | _ \<Rightarrow> row ! 5)
               else row ! c))"
  using assms
  by (auto simp: add_layer_group_hyperlinks_row_def nth_list_update
      split: if_splits pyval.splits option.splits)

lemma map_of_rev_last:
  "map_of (rev xs) k = Some a \<Longrightarrow>
   \<exists>i<length xs. xs ! i = (k, a) \<and> (\<forall>j. i < j \<and> j < length xs \<longrightarrow> fst (xs ! j) \<noteq> k)"
proof (induction xs rule: rev_induct)
  case Nil
  then show ?case by simp
next
  case (snoc x xs)
  show ?case
  proof (cases "fst x = k")
    case True
    with snoc.prems have "x = (k, a)" by (cases x) simp
    then have "(xs @ [x]) ! length xs = (k, a)" by simp
    then show ?thesis by (intro exI [of _ "length xs"]) auto
  next
    case False
    with snoc.prems have "map_of (rev xs) k = Some a" by (cases x) simp
    from snoc.IH [OF this] obtain i where
      i: "i < length xs" "xs ! i = (k, a)" "\<forall>j. i < j \<and> j < length xs \<longrightarrow> fst (xs ! j) \<noteq> k"
      by blast
    have "\<forall>j. i < j \<and> j < length (xs @ [x]) \<longrightarrow> fst ((xs @ [x]) ! j) \<noteq> k"
    proof (intro allI impI)
      fix j assume j: "i < j \<and> j < length (xs @ [x])"
      show "fst ((xs @ [x]) ! j) \<noteq> k"
      proof (cases "j < length xs")
        case True
        with i j show ?thesis by (simp add: nth_append)
      next
        case False
        with j have "j = length xs" by simp
        with \<open>fst x \<noteq> k\<close> show ?thesis by simp
      qed
    qed
    with i show ?thesis by (intro exI [of _ i]) (simp add: nth_append)
  qed
qed

lemma column_items_nth:
  "i < length (data_rows ws) \<Longrightarrow>
   column_items col entry ws ! i = (cell_value (data_rows ws ! i ! col), entry i (data_rows ws ! i))"
  by (simp add: column_items_def nth_enumerate_eq)

lemma column_dict_Some:
  assumes "column_dict width col (\<lambda>idx row. cell_address pre idx) ws = Inr m" and "m v = Some a"
  shows "\<exists>idx. Suc idx < length ws \<and> width \<le> length (ws ! Suc idx) \<and>
           a = cell_address pre idx \<and> cell_value (ws ! Suc idx ! col) = v \<and>
           (\<forall>j. idx < j \<and> Suc j < length ws \<longrightarrow> cell_value (ws ! Suc j ! col) \<noteq> v)"
proof -
  let ?e = "\<lambda>idx (row :: row). cell_address pre idx"
  from assms(1) have w: "\<forall>row\<in>set (data_rows ws). width \<le> length row"
    and m: "m = map_of (rev (column_items col ?e ws))"
    by (simp_all add: column_dict_iff)
  have l: "length (column_items col ?e ws) = length (data_rows ws)"
    by (simp add: column_items_def)
  have d: "data_rows ws ! j = ws ! Suc j \<and> Suc j < length ws" if "j < length (data_rows ws)" for j
    using that by (simp add: data_rows_def)
  from map_of_rev_last [of "column_items col ?e ws" v a] assms(2) m l obtain i where
    i: "i < length (data_rows ws)" "column_items col ?e ws ! i = (v, a)" and
    last: "\<forall>j. i < j \<and> j < length (data_rows ws) \<longrightarrow> fst (column_items col ?e ws ! j) \<noteq> v"
    by auto
  from i have 1: "a = cell_address pre i" "cell_value (ws ! Suc i ! col) = v"
    using d [of i] by (simp_all add: column_items_nth)
  from i w have 2: "width \<le> length (ws ! Suc i)" using d [of i] by (metis nth_mem)
  have 3: "cell_value (ws ! Suc j ! col) \<noteq> v" if "i < j \<and> Suc j < length ws" for j
  proof -
    from that have j: "j < length (data_rows ws)" by (auto simp: data_rows_def)
    with that last have "fst (column_items col ?e ws ! j) \<noteq> v" by blast
    with j d [of j] show ?thesis by (simp add: column_items_nth)
  qed
  from i d [of i] 1 2 3 show ?thesis by blast
qed

lemma column_dict_None:
  assumes "column_dict width col entry ws = Inr m" and "m v = None"
  shows "\<forall>j. Suc j < length ws \<longrightarrow> cell_value (ws ! Suc j ! col) \<noteq> v"
proof (intro allI impI)
  fix j assume "Suc j < length ws"
  then have j: "j < length (data_rows ws)" "data_rows ws ! j = ws ! Suc j"
    by (simp_all add: data_rows_def)
  from assms have "map_of (rev (column_items col entry ws)) v = None"
    by (simp add: column_dict_iff)
  then have "v \<notin> fst ` set (column_items col entry ws)"
    by (simp add: map_of_eq_None_iff)
  moreover from j have "column_items col entry ws ! j \<in> set (column_items col entry ws)"
    by (simp add: column_items_def)
  ultimately have "fst (column_items col entry ws ! j) \<noteq> v"
    by (metis image_eqI)
  with j show "cell_value (ws ! Suc j ! col) \<noteq> v"
    by (simp add: column_items_nth)
qed

lemma make_lookups_sources:
  assumes "make_lookups wb = Inr L" and "column_lookup L c = Some (m, p)"
  shows "\<exists>title kc pre sheet.
           column_source c = Some (title, kc, pre) \<and> map_of wb title = Some sheet \<and>
           column_dict (Suc kc) kc (\<lambda>idx row. cell_address pre idx) sheet = Inr m"
proof -
  from assms(1) obtain wl sl gl ll stl where
    1: "sheet_dict wb ''Workspaces'' 1 0 (\<lambda>idx row. cell_address ''Workspaces!A'' idx) = Inr wl" and
    2: "sheet_dict wb ''Stores'' 2 1 (\<lambda>idx row. cell_address ''Stores!B'' idx) = Inr sl" and
    3: "sheet_dict wb ''Layer Groups'' 1 0 (\<lambda>idx row. cell_address ''A'' idx) = Inr gl" and
    4: "sheet_dict wb ''Layers'' 4 3 (\<lambda>idx row. cell_address ''Layers!D'' idx) = Inr ll" and
    5: "sheet_dict wb ''Styles'' 1 0 (\<lambda>idx row. cell_address ''Styles!A'' idx) = Inr stl" and
    L: "L = \<lparr>workspace_lookup = wl, store_lookup = sl, group_lookup = gl,
             layer_lookup = ll, style_lookup = stl\<rparr>"
    by (auto simp: make_lookups_def split: sum.splits)
  have s: "sheet_dict wb title width kc e = Inr d \<Longrightarrow>
           \<exists>sheet. map_of wb title = Some sheet \<and> column_dict width kc e sheet = Inr d"
    for title width kc d and e :: "nat \<Rightarrow> row \<Rightarrow> string"
    by (auto simp: sheet_dict_def wb_get_def split: option.splits)
  from assms(2) consider "c = 0" | "c = 1" | "c = 2" | "c = 5" | "c = 7"
    by (auto simp: column_lookup_def split: if_splits)
  then show ?thesis
  proof cases
    case 1
    with assms(2) L s [OF \<open>sheet_dict wb ''Workspaces'' 1 0 _ = Inr wl\<close>] show ?thesis
      by (auto simp: column_lookup_def column_source_def eval_nat_numeral)
  next
    case 2
    with assms(2) L s [OF \<open>sheet_dict wb ''Stores'' 2 1 _ = Inr sl\<close>] show ?thesis
      by (auto simp: column_lookup_def column_source_def eval_nat_numeral)
  next
    case 3
    with assms(2) L s [OF \<open>sheet_dict wb ''Layer Groups'' 1 0 _ = Inr gl\<close>] show ?thesis
      by (auto simp: column_lookup_def column_source_def eval_nat_numeral)
  next
    case 4
    with assms(2) L s [OF \<open>sheet_dict wb ''Layers'' 4 3 _ = Inr ll\<close>] show ?thesis
      by (auto simp: column_lookup_def column_source_def eval_nat_numeral)
  next
    case 5
    with assms(2) L s [OF \<open>sheet_dict wb ''Styles'' 1 0 _ = Inr stl\<close>] show ?thesis
      by (auto simp: column_lookup_def column_source_def eval_nat_numeral)
  qed
qed

lemma link_columns_rows:
  assumes "link_columns_with_sheets ws wb = Inr ws1"
  shows "\<exists>L. make_lookups wb = Inr L \<and> length ws1 = length ws \<and> take 1 ws1 = take 1 ws \<and>
             (\<forall>i. 0 < i \<and> i < length ws \<longrightarrow> link_row L (ws ! i) = Inr (ws1 ! i))"
proof -
  from assms obtain L where L: "make_lookups wb = Inr L"
    and o: "on_data_rows (link_row L) ws = Inr ws1"
    by (auto simp: link_columns_with_sheets_def split: sum.splits)
  from on_data_rows_Inr [OF o] L show ?thesis by blast
qed

lemma add_layer_group_hyperlinks_rows:
  assumes "add_layer_group_hyperlinks wb ws1 = Inr ws2"
  shows "\<exists>gm. sheet_dict wb ''Layer Groups'' 1 0 (\<lambda>idx row. cell_address ''A'' idx) = Inr gm \<and>
             length ws2 = length ws1 \<and> take 1 ws2 = take 1 ws1 \<and>
             (\<forall>i. 0 < i \<and> i < length ws1 \<longrightarrow>
                add_layer_group_hyperlinks_row gm (ws1 ! i) = Inr (ws2 ! i))"
proof -
  from assms obtain gm where
    g: "sheet_dict wb ''Layer Groups'' 1 0 (\<lambda>idx row. cell_address ''A'' idx) = Inr gm"
    and o: "on_data_rows (add_layer_group_hyperlinks_row gm) ws1 = Inr ws2"
    by (auto simp: add_layer_group_hyperlinks_def split: sum.splits)
  from on_data_rows_Inr [OF o] g show ?thesis by blast
qed

lemma make_lookups_group:
  "make_lookups wb = Inr L \<Longrightarrow>
   sheet_dict wb ''Layer Groups'' 1 0 (\<lambda>idx row. cell_address ''A'' idx) = Inr (group_lookup L)"
  by (auto simp: make_lookups_def split: sum.splits)

lemma linked_cells:
  assumes "link_columns_with_sheets ws wb = Inr ws1"
    and "add_layer_group_hyperlinks wb ws1 = Inr ws2"
  shows "\<exists>L. make_lookups wb = Inr L \<and> length ws2 = length ws \<and> take 1 ws2 = take 1 ws \<and>
     (\<forall>i c. 0 < i \<and> i < length ws \<and> c < length (ws ! i) \<longrightarrow>
        length (ws2 ! i) = length (ws ! i) \<and>
        ws2 ! i ! c =
          (let cell = ws ! i ! c;
               linked = (case column_lookup L c of
                           Some (m, p) \<Rightarrow>
                             (case m (cell_value cell) of
                                Some a \<Rightarrow> set_hyperlink (p @ a) cell
                              | None \<Rightarrow> cell)
                         | None \<Rightarrow> cell)
           in if c = 5 \<and> cell_value (ws ! i ! 4) = PStr ''Layer Group'' then
                (case cell_value cell of
                   PStr s \<Rightarrow>
                     (case group_lookup L (PStr (replace_cgs s)) of
                        Some a \<Rightarrow> set_hyperlink (''#'Layer Groups'!'' @ a) linked
                      | None \<Rightarrow> linked)
                 | _ \<Rightarrow> linked)
              else linked))"
proof -
  from link_columns_rows [OF assms(1)] obtain L where
    L: "make_lookups wb = Inr L" and l1: "length ws1 = length ws" and t1: "take 1 ws1 = take 1 ws"
    and r1: "\<forall>i. 0 < i \<and> i < length ws \<longrightarrow> link_row L (ws ! i) = Inr (ws1 ! i)"
    by blast
  from add_layer_group_hyperlinks_rows [OF assms(2)] obtain gm where
    g: "sheet_dict wb ''Layer Groups'' 1 0 (\<lambda>idx row. cell_address ''A'' idx) = Inr gm"
    and l2: "length ws2 = length ws1" and t2: "take 1 ws2 = take 1 ws1"
    and r2: "\<forall>i. 0 < i \<and> i < length ws1 \<longrightarrow>
               add_layer_group_hyperlinks_row gm (ws1 ! i) = Inr (ws2 ! i)"
    by blast
  from g make_lookups_group [OF L] have gm: "gm = group_lookup L" by simp
  have cells: "length (ws2 ! i) = length (ws ! i) \<and>
        ws2 ! i ! c =
          (let cell = ws ! i ! c;
               linked = (case column_lookup L c of
                           Some (m, p) \<Rightarrow>
                             (case m (cell_value cell) of
                                Some a \<Rightarrow> set_hyperlink (p @ a) cell
                              | None \<Rightarrow> cell)
                         | None \<Rightarrow> cell)
           in if c = 5 \<and> cell_value (ws ! i ! 4) = PStr ''Layer Group'' then
                (case cell_value cell of
                   PStr s \<Rightarrow>
                     (case group_lookup L (PStr (replace_cgs s)) of
                        Some a \<Rightarrow> set_hyperlink (''#'Layer Groups'!'' @ a) linked
                      | None \<Rightarrow> linked)
                 | _ \<Rightarrow> linked)
              else linked)"
    if i: "0 < i \<and> i < length ws \<and> c < length (ws ! i)" for i c
  proof -
    from i r1 have a: "link_row L (ws ! i) = Inr (ws1 ! i)" by blast
    from i r2 l1 have b: "add_layer_group_hyperlinks_row gm (ws1 ! i) = Inr (ws2 ! i)" by simp
    from link_row_cells [OF a] have
      la: "length (ws1 ! i) = length (ws ! i)" and
      ca: "\<forall>c<length (ws ! i). ws1 ! i ! c =
              (case column_lookup L c of Some (m, p) \<Rightarrow> link_cell m p (ws ! i ! c)
               | None \<Rightarrow> ws ! i ! c)"
      by blast+
    from a have 8: "8 \<le> length (ws ! i)" by (auto simp: link_row_def split: if_splits)
    from add_layer_group_hyperlinks_row_cells [OF b] la have
      lb: "length (ws2 ! i) = length (ws ! i)" and
      cb: "\<forall>c<length (ws ! i). ws2 ! i ! c =
              (if c = 5 \<and> cell_value (ws1 ! i ! 4) = PStr ''Layer Group'' then
                 (case cell_value (ws1 ! i ! 5) of
                    PStr s \<Rightarrow>
                      (case gm (PStr (replace_cgs s)) of
                         Some a \<Rightarrow> set_hyperlink (''#'Layer Groups'!'' @ a) (ws1 ! i ! 5)
                       | None \<Rightarrow> ws1 ! i ! 5)
                  | _ \<Rightarrow> ws1 ! i ! 5)
               else ws1 ! i ! c)"
      by simp_all
    from ca 8 have v4: "ws1 ! i ! 4 = ws ! i ! 4"
      by (simp add: column_lookup_def)
    from ca 8 have v5: "cell_value (ws1 ! i ! 5) = cell_value (ws ! i ! 5)"
      by (simp add: column_lookup_def)
    from i ca have c1: "ws1 ! i ! c =
              (case column_lookup L c of Some (m, p) \<Rightarrow> link_cell m p (ws ! i ! c)
               | None \<Rightarrow> ws ! i ! c)" by blast
    from i cb have "ws2 ! i ! c =
              (if c = 5 \<and> cell_value (ws1 ! i ! 4) = PStr ''Layer Group'' then
                 (case cell_value (ws1 ! i ! 5) of
                    PStr s \<Rightarrow>
                      (case gm (PStr (replace_cgs s)) of
                         Some a \<Rightarrow> set_hyperlink (''#'Layer Groups'!'' @ a) (ws1 ! i ! 5)
                       | None \<Rightarrow> ws1 ! i ! 5)
                  | _ \<Rightarrow> ws1 ! i ! 5)
               else ws1 ! i ! c)" by blast
    with v4 v5 c1 gm lb show ?thesis
      by (auto simp: Let_def link_cell_def split: option.splits pyval.splits)
  qed
  from L l1 l2 t1 t2 cells show ?thesis by auto
qed

lemma lookup_addresses:
  assumes "make_lookups wb = Inr L" and "column_lookup L c = Some (m, p)"
  shows "(\<forall>v a. m v = Some a \<longrightarrow>
           (\<exists>title kc pre sheet idx.
              column_source c = Some (title, kc, pre) \<and> map_of wb title = Some sheet \<and>
              a = cell_address pre idx \<and> Suc idx < length sheet \<and>
              kc < length (sheet ! Suc idx) \<and> cell_value (sheet ! Suc idx ! kc) = v \<and>
              (\<forall>j. idx < j \<and> Suc j < length sheet \<longrightarrow> cell_value (sheet ! Suc j ! kc) \<noteq> v))) \<and>
         (\<forall>v. m v = None \<longrightarrow>
           (\<exists>title kc pre sheet.
              column_source c = Some (title, kc, pre) \<and> map_of wb title = Some sheet \<and>
              (\<forall>j. Suc j < length sheet \<longrightarrow> cell_value (sheet ! Suc j ! kc) \<noteq> v)))"
proof -
  from make_lookups_sources [OF assms] obtain title kc pre sheet where
    s: "column_source c = Some (title, kc, pre)" "map_of wb title = Some sheet" and
    d: "column_dict (Suc kc) kc (\<lambda>idx row. cell_address pre idx) sheet = Inr m"
    by blast
  have 1: "\<exists>title kc pre sheet idx.
              column_source c = Some (title, kc, pre) \<and> map_of wb title = Some sheet \<and>
              a = cell_address pre idx \<and> Suc idx < length sheet \<and>
              kc < length (sheet ! Suc idx) \<and> cell_value (sheet ! Suc idx ! kc) = v \<and>
              (\<forall>j. idx < j \<and> Suc j < length sheet \<longrightarrow> cell_value (sheet ! Suc j ! kc) \<noteq> v)"
    if "m v = Some a" for v a
  proof -
    from column_dict_Some [OF d that] obtain idx where
      "Suc idx < length sheet" "Suc kc \<le> length (sheet ! Suc idx)" "a = cell_address pre idx"
      "cell_value (sheet ! Suc idx ! kc) = v"
      "\<forall>j. idx < j \<and> Suc j < length sheet \<longrightarrow> cell_value (sheet ! Suc j ! kc) \<noteq> v"
      by blast
    with s show ?thesis by (intro exI [of _ title] exI [of _ kc] exI [of _ pre] exI [of _ sheet]
          exI [of _ idx]) simp
  qed
  have 2: "\<exists>title kc pre sheet.
              column_source c = Some (title, kc, pre) \<and> map_of wb title = Some sheet \<and>
              (\<forall>j. Suc j < length sheet \<longrightarrow> cell_value (sheet ! Suc j ! kc) \<noteq> v)"
    if "m v = None" for v
    using column_dict_None [OF d that] s by blast
  from 1 2 show ?thesis by blast
qed

lemma shape_from_values:
  assumes "sheet_values a = sheet_values b"
    and "\<forall>row\<in>set (data_rows b). 8 \<le> length row \<and> (\<exists>s. cell_value (row ! 5) = PStr s)"
  shows "\<forall>row\<in>set (data_rows a). 8 \<le> length row \<and> (\<exists>s. cell_value (row ! 5) = PStr s)"
proof
  fix row assume "row \<in> set (data_rows a)"
  then obtain i where i: "i < length (data_rows a)" "data_rows a ! i = row"
    by (auto simp: in_set_conv_nth)
  from assms(1) have e: "map (map cell_value) (data_rows a) = map (map cell_value) (data_rows b)"
    by (simp add: sheet_values_def data_rows_def drop_map [symmetric])
  then have l: "length (data_rows a) = length (data_rows b)" by (rule map_eq_imp_length_eq)
  from e i l have r: "map cell_value row = map cell_value (data_rows b ! i)" by (metis nth_map)
  from i l assms(2) have b: "8 \<le> length (data_rows b ! i) \<and>
      (\<exists>s. cell_value (data_rows b ! i ! 5) = PStr s)" by simp
  from r have "length row = length (data_rows b ! i)" by (rule map_eq_imp_length_eq)
  moreover have "cell_value (row ! 5) = cell_value (data_rows b ! i ! 5)"
  proof -
    from b \<open>length row = length (data_rows b ! i)\<close> have 5: "5 < length row" "5 < length (data_rows b ! i)"
      by simp_all
    then have "cell_value (row ! 5) = map cell_value row ! 5"
      and "cell_value (data_rows b ! i ! 5) = map cell_value (data_rows b ! i) ! 5"
      by simp_all
    with r show ?thesis by simp
  qed
  ultimately show "8 \<le> length row \<and> (\<exists>s. cell_value (row ! 5) = PStr s)" using b by simp
qed

lemma passes_total:
  assumes r: "wb_ready wb"
    and s: "\<forall>row\<in>set (data_rows ws). 8 \<le> length row \<and> (\<exists>s. cell_value (row ! 5) = PStr s)"
  shows "\<exists>ws1 ws2. link_columns_with_sheets ws wb = Inr ws1 \<and>
                   add_layer_group_hyperlinks wb ws1 = Inr ws2"
proof -
  from make_lookups_ready [OF r] obtain L where L: "make_lookups wb = Inr L" by blast
  have "\<forall>row\<in>set (data_rows ws). \<exists>row'. link_row L row = Inr row'"
    using s by (auto simp: link_row_def)
  from on_data_rows_total [OF this] L obtain ws1 where
    k: "link_columns_with_sheets ws wb = Inr ws1"
    by (auto simp: link_columns_with_sheets_def)
  from link_columns_with_sheets_values [OF k] have v: "sheet_values ws1 = sheet_values ws" .
  note s1 = shape_from_values [OF v s]
  from r have "wide_sheet wb ''Layer Groups'' 1"
    by (auto simp: wb_ready_def wide_sheet_def list_all_iff split: option.splits)
  from sheet_dict_wide [OF this, of 0 "\<lambda>idx row. cell_address ''A'' idx"]
  obtain gm where
    gm: "sheet_dict wb ''Layer Groups'' 1 0 (\<lambda>idx row. cell_address ''A'' idx) = Inr gm" by auto
  have "\<forall>row\<in>set (data_rows ws1). \<exists>row'. add_layer_group_hyperlinks_row gm row = Inr row'"
  proof
    fix row assume "row \<in> set (data_rows ws1)"
    with s1 obtain s where "8 \<le> length row" "cell_value (row ! 5) = PStr s" by blast
    then show "\<exists>row'. add_layer_group_hyperlinks_row gm row = Inr row'"
      by (simp add: add_layer_group_hyperlinks_row_def split: option.split)
  qed
  from on_data_rows_total [OF this] gm obtain ws2 where
    "add_layer_group_hyperlinks wb ws1 = Inr ws2"
    by (auto simp: add_layer_group_hyperlinks_def)
  with k show ?thesis by blast
qed

lemma keys_filled_D:
  assumes "keys_filled wb" and "column_source c = Some (title, kc, pre)"
    and "map_of wb title = Some sheet" and "Suc idx < length sheet"
  shows "cell_value (sheet ! Suc idx ! kc) \<noteq> PNone"
proof -
  from assms(2) have "c \<in> set [0, 1, 2, 5, 7]"
    by (auto simp: column_source_def split: if_splits)
  with assms(1) have
    "(case column_source c of
        Some (title, kc, pre) \<Rightarrow>
          (case map_of wb title of
             Some sheet \<Rightarrow> list_all (\<lambda>row. cell_value (row ! kc) \<noteq> PNone) (data_rows sheet)
           | None \<Rightarrow> True)
      | None \<Rightarrow> True)"
    unfolding keys_filled_def list_all_iff by blast
  with assms(2,3) have a: "\<forall>row\<in>set (data_rows sheet). cell_value (row ! kc) \<noteq> PNone"
    by (simp add: list_all_iff)
  from assms(4) have "data_rows sheet ! idx = sheet ! Suc idx" "idx < length (data_rows sheet)"
    by (simp_all add: data_rows_def)
  then have "sheet ! Suc idx \<in> set (data_rows sheet)" by (metis nth_mem)
  with a show ?thesis by blast
qed

lemma linked_cell_filled:
  assumes f: "keys_filled wb"
    and k: "link_columns_with_sheets ws wb = Inr ws1"
    and g: "add_layer_group_hyperlinks wb ws1 = Inr ws2"
    and i: "0 < i \<and> i < length ws \<and> c < length (ws ! i)"
    and n: "ws2 ! i ! c \<noteq> ws ! i ! c"
  shows "cell_value (ws ! i ! c) \<noteq> PNone"
proof
  assume e: "cell_value (ws ! i ! c) = PNone"
  from linked_cells [OF k g] obtain L where L: "make_lookups wb = Inr L"
    and cells: "\<forall>i c. 0 < i \<and> i < length ws \<and> c < length (ws ! i) \<longrightarrow>
        length (ws2 ! i) = length (ws ! i) \<and>
        ws2 ! i ! c =
          (let cell = ws ! i ! c;
               linked = (case column_lookup L c of
                           Some (m, p) \<Rightarrow>
                             (case m (cell_value cell) of
                                Some a \<Rightarrow> set_hyperlink (p @ a) cell
                              | None \<Rightarrow> cell)
                         | None \<Rightarrow> cell)
           in if c = 5 \<and> cell_value (ws ! i ! 4) = PStr ''Layer Group'' then
                (case cell_value cell of
                   PStr s \<Rightarrow>
                     (case group_lookup L (PStr (replace_cgs s)) of
                        Some a \<Rightarrow> set_hyperlink (''#'Layer Groups'!'' @ a) linked
                      | None \<Rightarrow> linked)
                 | _ \<Rightarrow> linked)
              else linked)"
    by blast
  note cell = cells [THEN spec, THEN spec, THEN mp, OF i, THEN conjunct2]
  have w: "ws2 ! i ! c =
      (case column_lookup L c of
         Some (m, p) \<Rightarrow> (case m PNone of Some a \<Rightarrow> set_hyperlink (p @ a) (ws ! i ! c)
                          | None \<Rightarrow> ws ! i ! c)
       | None \<Rightarrow> ws ! i ! c)"
    unfolding cell using e by (auto simp: Let_def split: option.split)
  with n obtain m p a where c: "column_lookup L c = Some (m, p)" and a: "m PNone = Some a"
    by (auto split: option.splits)
  from lookup_addresses [OF L c] a obtain title kc pre sheet idx where
    "column_source c = Some (title, kc, pre)" "map_of wb title = Some sheet"
    "Suc idx < length sheet" "cell_value (sheet ! Suc idx ! kc) = PNone"
    by blast
  with keys_filled_D [OF f] show False by blast
qed

lemma group_worksheet_stages:
  assumes "group_worksheet wb grp layers = Inr ws"
  shows "\<exists>ws0 ws1 ws2.
           ws_append_all []
             (header_row group_header
              # map (member_row grp layers) (split_comma (g_layers grp))) = Inr ws0 \<and>
           populate_child_title wb ws0 = Inr ws1 \<and>
           link_columns_with_sheets (add_header_hyperlinks ws1) wb = Inr ws2 \<and>
           add_layer_group_hyperlinks wb ws2 = Inr ws \<and>
           ws1 \<noteq> [] \<and> map cell_value (ws1 ! 0) = map PStr group_header"
proof -
  let ?names = "split_comma (g_layers grp)"
  let ?hdr = "header_row group_header"
  from assms obtain ws0 ws1 ws2 where
    a: "ws_append_all [] (?hdr # map (member_row grp layers) ?names) = Inr ws0" and
    p: "populate_child_title wb ws0 = Inr ws1" and
    k: "link_columns_with_sheets (add_header_hyperlinks ws1) wb = Inr ws2" and
    g: "add_layer_group_hyperlinks wb ws2 = Inr ws"
    by (auto simp: group_worksheet_def split: sum.splits)
  from ws_append_all_Inr [OF a] have
    ws0: "ws0 = map (map (new_cell \<circ> scalar)) (?hdr # map (member_row grp layers) ?names)"
    by simp
  from p obtain m where
    o: "on_data_rows (populate_child_title_row m) ws0 = Inr ws1"
    by (auto simp: populate_child_title_def split: sum.splits)
  from populate_rows [OF o [unfolded ws0]] have
    v1: "sheet_values ws1 = map PStr group_header # map (titled_row m grp layers) ?names"
    by (simp add: header_row_def comp_def)
  then have "ws1 \<noteq> []" "map cell_value (ws1 ! 0) = map PStr group_header"
    by (auto simp: sheet_values_def)
  with a p k g show ?thesis by blast
qed

section \<open>The example workbook\<close>

lemma layer_groups_rows_wide:
  assumes "layer_groups_sheet groups = Inr lg"
  shows "\<forall>row\<in>set (data_rows lg). length row = 6"
proof
  fix row assume "row \<in> set (data_rows lg)"
  then have "map cell_value row \<in> set (map (map cell_value) (data_rows lg))" by simp
  also from layer_groups_sheet_values [of groups] assms have
    "map (map cell_value) (data_rows lg) = map group_values groups"
    by (auto simp: sheet_values_def data_rows_def drop_map [symmetric])
  finally obtain g where "map cell_value row = group_values g" by auto
  then have "length (map cell_value row) = 6" by (simp add: group_values_def)
  then show "length row = 6" by simp
qed

lemma ex_layer_groups:
  "\<exists>lg. layer_groups_sheet ex_norm_groups = Inr lg \<and> map_of ex_wb ''Layer Groups'' = Some lg"
proof -
  from layer_groups_sheet_values [of ex_norm_groups] obtain lg where
    "layer_groups_sheet ex_norm_groups = Inr lg" by blast
  then show ?thesis by (simp add: ex_wb_def)
qed

lemma ex_wb_ready: "wb_ready ex_wb"
proof -
  from ex_layer_groups obtain lg where
    lg: "layer_groups_sheet ex_norm_groups = Inr lg" "map_of ex_wb ''Layer Groups'' = Some lg"
    by blast
  from layer_groups_rows_wide [OF lg(1)] have "list_all (\<lambda>row. 2 \<le> length row) (data_rows lg)"
    by (simp add: list_all_iff)
  with lg(2) have "wide_sheet ex_wb ''Layer Groups'' 2" by (simp add: wide_sheet_def)
  moreover have "wide_sheet ex_wb ''Workspaces'' 1" "wide_sheet ex_wb ''Stores'' 2"
    "wide_sheet ex_wb ''Layers'' 4" "wide_sheet ex_wb ''Styles'' 1"
    by (simp_all add: wide_sheet_def ex_wb_def data_rows_def ex_rows_def layer_row_def)
  ultimately show ?thesis by (simp add: wb_ready_def)
qed

lemma ex_rows_storable: "\<forall>layer\<in>set ex_rows. \<exists>v. l_default_style layer = JVal v"
  by (simp add: ex_rows_def)



lemma ex_g0_built: "\<exists>ws. group_worksheet ex_wb (ex_norm_groups ! 0) ex_rows = Inr ws"
  using group_worksheet_total [OF ex_wb_ready ex_rows_storable] .

lemma ex_sheet_shape:
  "\<forall>row\<in>set (data_rows ex_sheet). 8 \<le> length row \<and> (\<exists>s. cell_value (row ! 5) = PStr s)"
  by (simp add: ex_sheet_def data_rows_def new_cell_def)

lemma ex_keys_filled: "keys_filled ex_wb"
  by (simp add: keys_filled_def column_source_def ex_wb_def data_rows_def new_cell_def
      ex_rows_def layer_row_def ex_norm_groups_def layer_groups_sheet_def ws_append_def
      header_row_def group_row_def add_header_hyperlinks_layer_groups_def ws_cell_update_def
      dict_keys_def group_sheet_title_def set_hyperlink_def Let_def enumerate_eq_zip)


lemma ex_sheet_links:
  "map_sum id (map (map cell_hyperlink))
     (case link_columns_with_sheets ex_sheet ex_wb of
        Inl e \<Rightarrow> Inl e
      | Inr ws1 \<Rightarrow> add_layer_group_hyperlinks ex_wb ws1)
   = Inr [[None, None, None, None, None, None, None, None],
          [None, None, Some ''#'Layer Groups'!A2'', None, None, Some ''#'Layer Groups'!A3'',
           None, None],
          [Some ''#Workspaces!A2'', Some ''#Stores!B2'', Some ''#'Layer Groups'!A2'', None,
           None, Some ''#Layers!D2'', None, None],
          [None, None, Some ''#'Layer Groups'!A2'', None, None, None, None, None]]"
  by (simp add: ex_sheet_def group_header_def
      link_columns_with_sheets_def add_layer_group_hyperlinks_def on_data_rows_def
      link_row_def link_cell_def add_layer_group_hyperlinks_row_def
      make_lookups_def sheet_dict_def wb_get_def column_dict_def data_rows_def
      ex_wb_def ex_norm_groups_def ex_rows_def layer_groups_sheet_def ws_append_def
      header_row_def group_row_def layer_row_def add_header_hyperlinks_layer_groups_def
      ws_cell_update_def dict_keys_def group_sheet_title_def set_hyperlink_def new_cell_def
      py_dict_def cell_address_def str_of_nat.simps digit_char_def Let_def enumerate_eq_zip)



section \<open>Member rows of a group sheet\<close>




section \<open>Rows of nested groups\<close>






section \<open>A group without members\<close>

text \<open>
  \<^bold>\<open>C10.\<close> A group without members has the empty string as its joined member names, and
  splitting the empty string gives one empty name. So the sheet of a group whose member
  string is empty (a sheet that is built whenever the workbook has the five sheets the passes
  read and the default style of every layer is a scalar) has exactly one data row; its member
  name is the empty string, and its type is \<^verbatim>\<open>Layer Group\<close>, the name of a layer of a
  catalog being never empty.
\<close>

theorem empty_member_string_one_row:
  "(rg_layers g = [] \<longrightarrow> g_layers (group_entry g) = []) \<and>
   split_comma [] = [[]] \<and>
   (wb_ready wb \<and> (\<forall>layer\<in>set layers. \<exists>v. l_default_style layer = JVal v) \<longrightarrow>
      (\<exists>ws. group_worksheet wb grp layers = Inr ws)) \<and>
   (g_layers grp = [] \<and> group_worksheet wb grp layers = Inr ws \<longrightarrow>
      length (data_rows ws) = 1 \<and>
      cell_value (ws ! 1 ! 5) = PStr [] \<and>
      ((\<forall>layer\<in>set layers. l_name layer \<noteq> []) \<longrightarrow>
         cell_value (ws ! 1 ! 4) = PStr ''Layer Group''))"
proof (intro conjI impI)
  show "rg_layers g = [] \<Longrightarrow> g_layers (group_entry g) = []"
    by (simp add: group_entry_def Let_def)
  show "split_comma [] = [[]]" by (simp add: split_comma_def)
  show "wb_ready wb \<and> (\<forall>layer\<in>set layers. \<exists>v. l_default_style layer = JVal v) \<Longrightarrow>
      \<exists>ws. group_worksheet wb grp layers = Inr ws"
    using group_worksheet_total [of wb layers grp] by blast
next
  assume a: "g_layers grp = [] \<and> group_worksheet wb grp layers = Inr ws"
  then have n: "split_comma (g_layers grp) = [[]]" by (simp add: split_comma_def)
  from a group_worksheet_rows [of wb grp layers ws] obtain m where
    l: "length ws = Suc (length (split_comma (g_layers grp)))" and
    r: "\<forall>i<length (split_comma (g_layers grp)). length (ws ! Suc i) = 8 \<and>
          map cell_value (ws ! Suc i) = titled_row m grp layers (split_comma (g_layers grp) ! i)"
    by blast
  from r n have 8: "length (ws ! 1) = 8"
    and v: "map cell_value (ws ! 1) = titled_row m grp layers []" by simp_all
  from 8 have c: "cell_value (ws ! 1 ! 5) = map cell_value (ws ! 1) ! 5"
    "cell_value (ws ! 1 ! 4) = map cell_value (ws ! 1) ! 4" by simp_all
  from l n show "length (data_rows ws) = 1" by (simp add: data_rows_def)
  from titled_row_type [of m grp layers "[]"] v c
  show "cell_value (ws ! 1 ! 5) = PStr []" by simp
  assume "\<forall>layer\<in>set layers. l_name layer \<noteq> []"
  then have "\<not> (\<exists>layer\<in>set layers. l_name layer = [])" by blast
  with titled_row_type [of m grp layers "[]"] v c
  show "cell_value (ws ! 1 ! 4) = PStr ''Layer Group''" by simp
qed

theorem empty_member_string_one_row_witness:
  "rg_layers ex_bare_group = [] \<and>
   g_layers (group_entry ex_bare_group) = [] \<and>
   g_layers ex_empty_group = [] \<and> wb_ready ex_wb \<and>
   (\<exists>ws. group_worksheet ex_wb ex_empty_group ex_rows = Inr ws \<and>
      length (data_rows ws) = 1 \<and> cell_value (ws ! 1 ! 5) = PStr [] \<and>
      cell_value (ws ! 1 ! 4) = PStr ''Layer Group'')"
proof -
  have s: "wb_ready ex_wb \<and> (\<forall>layer\<in>set ex_rows. \<exists>v. l_default_style layer = JVal v)"
    using ex_wb_ready ex_rows_storable by simp
  note t = empty_member_string_one_row
    [of ex_bare_group ex_wb ex_rows ex_empty_group]
  from t [of undefined, THEN conjunct2, THEN conjunct2, THEN conjunct1, THEN mp, OF s]
  obtain ws where ws: "group_worksheet ex_wb ex_empty_group ex_rows = Inr ws" by blast
  have h: "g_layers ex_empty_group = []" "\<forall>layer\<in>set ex_rows. l_name layer \<noteq> []"
    "rg_layers ex_bare_group = []"
    by (simp_all add: ex_empty_group_def ex_rows_def ex_bare_group_def)
  from h ws have p: "g_layers ex_empty_group = [] \<and>
      group_worksheet ex_wb ex_empty_group ex_rows = Inr ws" by simp
  note c = t [of ws, THEN conjunct2, THEN conjunct2, THEN conjunct2, THEN mp, OF p]
  note c4 = c [THEN conjunct2, THEN conjunct2, THEN mp, OF h(2)]
  note c0 = t [of ws, THEN conjunct1, THEN mp, OF h(3)]
  show ?thesis
    using h(1,3) ex_wb_ready c0
    by (intro conjI exI [of _ ws]) (simp_all only: ws c c4 simp_thms)
qed

section \<open>Values under the linking passes\<close>

text \<open>
  \<^bold>\<open>C9.\<close> The passes that attach the links are \<^verbatim>\<open>add_header_hyperlinks\<close>,
  \<^verbatim>\<open>link_columns_with_sheets\<close> and \<^verbatim>\<open>add_layer_group_hyperlinks\<close>; each assigns the hyperlink and
  the style of a cell and nothing else. So each of them returns a sheet with the values it
  was given, row by row and cell by cell; on a sheet of rows of eight cells whose member cell
  is a string, in a workbook that has the five sheets the lookups read, the two passes over
  the data rows return; and the values of a finished group sheet are those it had when
  \<^verbatim>\<open>populate_child_title\<close> returned, its header being the eight titles. The cell of the sink
  is modelled with its value and its annotations apart, as the program assigns them; the
  last part says that a data cell which the passes change is not empty, as long as no key
  column of the workbook has an empty cell: then a sink that fills an empty cell with the
  target of its link changes no value either.
\<close>

theorem annotation_keeps_values:
  "(link_columns_with_sheets ws wb = Inr ws' \<longrightarrow> sheet_values ws' = sheet_values ws) \<and>
   (add_layer_group_hyperlinks wb ws = Inr ws' \<longrightarrow> sheet_values ws' = sheet_values ws) \<and>
   (ws \<noteq> [] \<and> 8 \<le> length (ws ! 0) \<longrightarrow>
      sheet_values (add_header_hyperlinks ws) = sheet_values ws) \<and>
   (wb_ready wb \<and>
    (\<forall>row\<in>set (data_rows ws). 8 \<le> length row \<and> (\<exists>s. cell_value (row ! 5) = PStr s)) \<longrightarrow>
      (\<exists>ws1 ws2. link_columns_with_sheets ws wb = Inr ws1 \<and>
                 add_layer_group_hyperlinks wb ws1 = Inr ws2 \<and>
                 sheet_values ws2 = sheet_values ws)) \<and>
   (group_worksheet wb grp layers = Inr ws' \<longrightarrow>
      (\<exists>ws0 ws1.
         ws_append_all []
           (header_row group_header
            # map (member_row grp layers) (split_comma (g_layers grp))) = Inr ws0 \<and>
         populate_child_title wb ws0 = Inr ws1 \<and>
         map cell_value (ws1 ! 0) = map PStr group_header \<and>
         sheet_values ws' = sheet_values ws1)) \<and>
   (keys_filled wb \<and> link_columns_with_sheets ws wb = Inr ws1 \<and>
    add_layer_group_hyperlinks wb ws1 = Inr ws2 \<longrightarrow>
      (\<forall>i c. 0 < i \<and> i < length ws \<and> c < length (ws ! i) \<and> ws2 ! i ! c \<noteq> ws ! i ! c \<longrightarrow>
         cell_value (ws ! i ! c) \<noteq> PNone))"
proof (intro conjI impI)
  assume "link_columns_with_sheets ws wb = Inr ws'"
  then show "sheet_values ws' = sheet_values ws" by (rule link_columns_with_sheets_values)
next
  assume "add_layer_group_hyperlinks wb ws = Inr ws'"
  then show "sheet_values ws' = sheet_values ws" by (rule add_layer_group_hyperlinks_values)
next
  assume "ws \<noteq> [] \<and> 8 \<le> length (ws ! 0)"
  then show "sheet_values (add_header_hyperlinks ws) = sheet_values ws"
    using add_header_hyperlinks_values by blast
next
  assume a: "wb_ready wb \<and>
    (\<forall>row\<in>set (data_rows ws). 8 \<le> length row \<and> (\<exists>s. cell_value (row ! 5) = PStr s))"
  then obtain ws1 ws2 where k: "link_columns_with_sheets ws wb = Inr ws1"
    and g: "add_layer_group_hyperlinks wb ws1 = Inr ws2"
    using passes_total [of wb ws] by blast
  from link_columns_with_sheets_values [OF k] add_layer_group_hyperlinks_values [OF g]
  have "sheet_values ws2 = sheet_values ws" by simp
  with k g show "\<exists>ws1 ws2. link_columns_with_sheets ws wb = Inr ws1 \<and>
                 add_layer_group_hyperlinks wb ws1 = Inr ws2 \<and>
                 sheet_values ws2 = sheet_values ws" by blast
next
  assume "group_worksheet wb grp layers = Inr ws'"
  from group_worksheet_stages [OF this] obtain ws0 ws1 ws2 where
    a: "ws_append_all []
             (header_row group_header
              # map (member_row grp layers) (split_comma (g_layers grp))) = Inr ws0" and
    p: "populate_child_title wb ws0 = Inr ws1" and
    k: "link_columns_with_sheets (add_header_hyperlinks ws1) wb = Inr ws2" and
    g: "add_layer_group_hyperlinks wb ws2 = Inr ws'" and
    n: "ws1 \<noteq> []" and h: "map cell_value (ws1 ! 0) = map PStr group_header"
    by blast
  from h have "length (ws1 ! 0) = 8"
    by (auto simp: group_header_def dest: map_eq_imp_length_eq)
  with n have "sheet_values (add_header_hyperlinks ws1) = sheet_values ws1"
    by (simp add: add_header_hyperlinks_values)
  with link_columns_with_sheets_values [OF k] add_layer_group_hyperlinks_values [OF g]
  have "sheet_values ws' = sheet_values ws1" by simp
  with a p h show "\<exists>ws0 ws1.
         ws_append_all []
           (header_row group_header
            # map (member_row grp layers) (split_comma (g_layers grp))) = Inr ws0 \<and>
         populate_child_title wb ws0 = Inr ws1 \<and>
         map cell_value (ws1 ! 0) = map PStr group_header \<and>
         sheet_values ws' = sheet_values ws1" by blast
next
  assume a: "keys_filled wb \<and> link_columns_with_sheets ws wb = Inr ws1 \<and>
    add_layer_group_hyperlinks wb ws1 = Inr ws2"
  show "\<forall>i c. 0 < i \<and> i < length ws \<and> c < length (ws ! i) \<and> ws2 ! i ! c \<noteq> ws ! i ! c \<longrightarrow>
         cell_value (ws ! i ! c) \<noteq> PNone"
    using linked_cell_filled [of wb ws ws1 ws2] a by blast
qed

theorem annotation_keeps_values_witness:
  "wb_ready ex_wb \<and> keys_filled ex_wb \<and>
   (\<exists>ws1 ws2. link_columns_with_sheets ex_sheet ex_wb = Inr ws1 \<and>
              add_layer_group_hyperlinks ex_wb ws1 = Inr ws2 \<and>
              sheet_values ws1 = sheet_values ex_sheet \<and>
              sheet_values ws2 = sheet_values ex_sheet \<and>
              cell_hyperlink (ws2 ! 2 ! 5) = Some ''#Layers!D2'' \<and>
              cell_hyperlink (ex_sheet ! 2 ! 5) = None \<and>
              cell_value (ex_sheet ! 2 ! 5) \<noteq> PNone) \<and>
   sheet_values (add_header_hyperlinks ex_sheet) = sheet_values ex_sheet \<and>
   (\<exists>ws ws0 ws1.
      group_worksheet ex_wb (ex_norm_groups ! 0) ex_rows = Inr ws \<and>
      ws_append_all []
        (header_row group_header
         # map (member_row (ex_norm_groups ! 0) ex_rows)
             (split_comma (g_layers (ex_norm_groups ! 0)))) = Inr ws0 \<and>
      populate_child_title ex_wb ws0 = Inr ws1 \<and> sheet_values ws = sheet_values ws1)"
proof -
  have p: "wb_ready ex_wb \<and>
    (\<forall>row\<in>set (data_rows ex_sheet). 8 \<le> length row \<and> (\<exists>s. cell_value (row ! 5) = PStr s))"
    using ex_wb_ready ex_sheet_shape by simp
  from annotation_keeps_values [of ex_sheet ex_wb, THEN conjunct2, THEN conjunct2,
      THEN conjunct2, THEN conjunct1, THEN mp, OF p]
  obtain ws1 ws2 where k: "link_columns_with_sheets ex_sheet ex_wb = Inr ws1"
    and g: "add_layer_group_hyperlinks ex_wb ws1 = Inr ws2"
    and v2: "sheet_values ws2 = sheet_values ex_sheet" by blast
  note v1 = annotation_keeps_values [of ex_sheet ex_wb ws1, THEN conjunct1, THEN mp, OF k]
  have q: "ex_sheet \<noteq> [] \<and> 8 \<le> length (ex_sheet ! 0)"
    by (simp add: ex_sheet_def group_header_def)
  note h = annotation_keeps_values [of ex_sheet, THEN conjunct2, THEN conjunct2,
      THEN conjunct1, THEN mp, OF q]
  from ex_sheet_links k g have "map (map cell_hyperlink) ws2 ! 2 ! 5 = Some ''#Layers!D2''"
    by simp
  moreover from v2 have "length ws2 = 4" "length (ws2 ! 2) = 8"
    using sheet_values_eq_D [of ws2 ex_sheet]
    by (simp_all add: ex_sheet_def group_header_def)
  ultimately have l: "cell_hyperlink (ws2 ! 2 ! 5) = Some ''#Layers!D2''" by simp
  have o: "cell_hyperlink (ex_sheet ! 2 ! 5) = None" "length ex_sheet = 4"
    "length (ex_sheet ! 2) = 8"
    by (simp_all add: ex_sheet_def new_cell_def group_header_def)
  from l o have d: "ws2 ! 2 ! 5 \<noteq> ex_sheet ! 2 ! 5" by auto
  have r: "keys_filled ex_wb \<and> link_columns_with_sheets ex_sheet ex_wb = Inr ws1 \<and>
    add_layer_group_hyperlinks ex_wb ws1 = Inr ws2"
    using ex_keys_filled k g by simp
  have s: "0 < (2::nat) \<and> 2 < length ex_sheet \<and> 5 < length (ex_sheet ! 2) \<and>
      ws2 ! 2 ! 5 \<noteq> ex_sheet ! 2 ! 5"
    using o d by simp
  note f = annotation_keeps_values [of ex_sheet ex_wb _ _ _ ws1 ws2, THEN conjunct2,
      THEN conjunct2, THEN conjunct2, THEN conjunct2, THEN conjunct2, THEN mp, OF r,
      THEN spec, THEN spec, THEN mp, OF s]
  from ex_g0_built obtain ws where
    ws: "group_worksheet ex_wb (ex_norm_groups ! 0) ex_rows = Inr ws" by blast
  from annotation_keeps_values [of _ ex_wb ws "ex_norm_groups ! 0" ex_rows, THEN conjunct2,
      THEN conjunct2, THEN conjunct2, THEN conjunct2, THEN conjunct1, THEN mp, OF ws]
  obtain ws0 ws1' where
    a: "ws_append_all []
        (header_row group_header
         # map (member_row (ex_norm_groups ! 0) ex_rows)
             (split_comma (g_layers (ex_norm_groups ! 0)))) = Inr ws0"
    and b: "populate_child_title ex_wb ws0 = Inr ws1'"
    and c: "sheet_values ws = sheet_values ws1'" by blast
  have 1: "\<exists>ws1 ws2. link_columns_with_sheets ex_sheet ex_wb = Inr ws1 \<and>
              add_layer_group_hyperlinks ex_wb ws1 = Inr ws2 \<and>
              sheet_values ws1 = sheet_values ex_sheet \<and>
              sheet_values ws2 = sheet_values ex_sheet \<and>
              cell_hyperlink (ws2 ! 2 ! 5) = Some ''#Layers!D2'' \<and>
              cell_hyperlink (ex_sheet ! 2 ! 5) = None \<and>
              cell_value (ex_sheet ! 2 ! 5) \<noteq> PNone"
    by (intro exI [of _ ws1] exI [of _ ws2] conjI) (simp_all only: k g v1 v2 l o f simp_thms)
  have 2: "\<exists>ws ws0 ws1.
      group_worksheet ex_wb (ex_norm_groups ! 0) ex_rows = Inr ws \<and>
      ws_append_all []
        (header_row group_header
         # map (member_row (ex_norm_groups ! 0) ex_rows)
             (split_comma (g_layers (ex_norm_groups ! 0)))) = Inr ws0 \<and>
      populate_child_title ex_wb ws0 = Inr ws1 \<and> sheet_values ws = sheet_values ws1"
    by (intro exI [of _ ws] exI [of _ ws0] exI [of _ ws1'] conjI) (simp_all only: ws a b c)
  from ex_wb_ready ex_keys_filled 1 h 2 show ?thesis by (simp only: simp_thms)
qed

section \<open>Links of a group sheet\<close>




end
